theory Spec2Isabelle
  imports Main "HOL-Library.Word" "HOL-Library.AList"
begin

unbundle bit_operations_syntax

section \<open>Values of the JavaScript runtime\<close>

text \<open>
  Thrown values. Everything thrown in the code modelled here is an \<open>Error\<close> instance, so
  \<open>error instanceof Error ? error.message : ...\<close> always reads the message.
\<close>

datatype exn = SyntaxError string | TypeError string | Error string

fun exn_message :: "exn \<Rightarrow> string" where
  "exn_message (SyntaxError m) = m"
| "exn_message (TypeError m) = m"
| "exn_message (Error m) = m"

text \<open>
  What \<open>JSON.parse\<close> returns. \<open>JNum\<close> is an integer of magnitude below \<open>2 ^ 53\<close>,
  which prints as its decimal digits; any other number (a fraction, a larger integer) is
  \<open>JReal\<close>, kept as the text that converting it to a string gives. An object is the list
  of its own properties.
\<close>

datatype json =
    JNull | JBool bool | JNum int | JReal string | JStr string | JArray "json list"
  | JObject "(string \<times> json) list"

text \<open>
  Reading a property \<open>v.key\<close>, for the keys the scheduler reads (\<open>takeId\<close>,
  \<open>source\<close>, \<open>destination\<close>): \<open>None\<close> is \<open>undefined\<close>; on \<open>null\<close> the
  read throws a TypeError.
\<close>

fun get_prop :: "json \<Rightarrow> string \<Rightarrow> exn + json option" where
  "get_prop JNull key = Inl (TypeError (''Cannot read properties of null (reading '' @ key @ '')''))"
| "get_prop (JObject props) key = Inr (map_of props key)"
| "get_prop _ key = Inr None"

text \<open>Decimal digits of an integer, as a template literal prints it.\<close>

function nat_to_string :: "nat \<Rightarrow> string" where
  "nat_to_string n =
     (if n < 10 then [''0123456789'' ! n]
      else nat_to_string (n div 10) @ [''0123456789'' ! (n mod 10)])"
  by pat_completeness auto
termination
  by (relation "measure (\<lambda>n. n)") auto

declare nat_to_string.simps [simp del]

definition int_to_string :: "int \<Rightarrow> string" where
  "int_to_string i = (if i < 0 then CHR ''-'' # nat_to_string (nat (- i)) else nat_to_string (nat i))"

fun join_comma :: "string list \<Rightarrow> string" where
  "join_comma [] = []"
| "join_comma [s] = s"
| "join_comma (s # t # ss) = s @ '','' @ join_comma (t # ss)"

text \<open>The results of a list of evaluations, or the first exception among them.\<close>

fun collect :: "(exn + 'a) list \<Rightarrow> exn + 'a list" where
  "collect [] = Inr []"
| "collect (Inl e # rs) = Inl e"
| "collect (Inr x # rs) = (case collect rs of Inl e \<Rightarrow> Inl e | Inr xs \<Rightarrow> Inr (x # xs))"

text \<open>
  \<open>`${v}`\<close> for a parsed value. An array prints its elements joined by commas, with
  \<open>null\<close> elements empty. An object prints as \<open>[object Object]\<close> through the
  \<open>toString\<close> it inherits; an own property \<open>toString\<close> hides that method and is not
  callable, \<open>valueOf\<close> gives no primitive, and the conversion throws a TypeError.
  Converting such a value to a number throws for the same values.
\<close>

fun js_toString :: "json \<Rightarrow> exn + string" where
  "js_toString JNull = Inr ''null''"
| "js_toString (JBool b) = Inr (if b then ''true'' else ''false'')"
| "js_toString (JNum n) = Inr (int_to_string n)"
| "js_toString (JReal text) = Inr text"
| "js_toString (JStr s) = Inr s"
| "js_toString (JArray xs) =
     (case collect (map (\<lambda>x. if x = JNull then Inr [] else js_toString x) xs) of
        Inl e \<Rightarrow> Inl e
      | Inr ss \<Rightarrow> Inr (join_comma ss))"
| "js_toString (JObject props) =
     (if map_of props ''toString'' \<noteq> None
      then Inl (TypeError ''Cannot convert object to primitive value'')
      else Inr ''[object Object]'')"

definition js_toString_opt :: "json option \<Rightarrow> exn + string" where
  "js_toString_opt v = (case v of None \<Rightarrow> Inr ''undefined'' | Some x \<Rightarrow> js_toString x)"

text \<open>
  A \<open>Date\<close>: an instant in milliseconds, or the invalid date that \<open>new Date(s)\<close>
  gives for a string it cannot read. A stored date string is kept as the \<open>Date\<close> it
  denotes.
\<close>

datatype js_date = InvalidDate | Instant int

record Result =
  success :: bool
  message :: string

text \<open>
  How an attempt to connect ends: the socket's \<open>connect\<close> event, its \<open>error\<close> event
  with an error, or its \<open>timeout\<close> event.
\<close>

datatype connect_outcome = Connects | SocketError exn | ConnectTimeout

text \<open>
  What the network does during one command on a link of the binary client: how
  connecting ends, whether the write fails, and the \<open>response\<close> events the client emits
  before the command timeout runs out.
\<close>

record 'r link_env =
  connecting :: connect_outcome
  write_error :: "exn option"
  responses :: "'r list"

text \<open>
  The same for the line client, with the chunks of data that arrive on the socket before
  the command timeout runs out.
\<close>

record line_env =
  line_connecting :: connect_outcome
  line_write_error :: "exn option"
  arrivals :: "string list"

section \<open>JavaScript 32-bit integer operators\<close>

text \<open>
  The bitwise operators of JavaScript first convert each operand with ToInt32 (the value
  modulo \<open>2 ^ 32\<close>, read as two's complement) and return such a value. A shift count is
  taken modulo 32. Numbers are modelled as \<open>int\<close>: the builder is called with integers.
\<close>

definition ToInt32 :: "int \<Rightarrow> 32 word" where
  "ToInt32 n = word_of_int n"

definition js_and :: "int \<Rightarrow> int \<Rightarrow> int" where
  "js_and a b = sint (ToInt32 a AND ToInt32 b)"

definition js_or :: "int \<Rightarrow> int \<Rightarrow> int" where
  "js_or a b = sint (ToInt32 a OR ToInt32 b)"

definition js_xor :: "int \<Rightarrow> int \<Rightarrow> int" where
  "js_xor a b = sint (ToInt32 a XOR ToInt32 b)"

definition js_shr :: "int \<Rightarrow> nat \<Rightarrow> int" where
  "js_shr a k = sint (signed_drop_bit (k mod 32) (ToInt32 a))"

definition js_shl :: "int \<Rightarrow> nat \<Rightarrow> int" where
  "js_shl a k = sint (push_bit (k mod 32) (ToInt32 a))"

section \<open>The binary framed client (SW-P-08)\<close>

type_synonym byte = "8 word"

definition SOM :: int where "SOM = 0x10"
definition EOM :: int where "EOM = 0x10"
definition EOM2 :: int where "EOM2 = 0x11"
definition COMMAND_CONNECT :: int where "COMMAND_CONNECT = 0x02"

text \<open>\<open>Buffer.from(array)\<close> keeps the low eight bits of every entry.\<close>

definition Buffer_from :: "int list \<Rightarrow> byte list" where
  "Buffer_from xs = map word_of_int xs"

text \<open>
  The client, with \<open>swp_uncaught\<close> the errors that \<open>connect()\<close> throws out of the
  socket's event handlers, which nothing catches; the program is followed as it goes on
  when the process survives them.
\<close>

record SWP08Client =
  swp_host :: string
  swp_port :: int
  matrix :: int
  level :: int
  swp_connected :: bool
  swp_responseBuffer :: "byte list"
  swp_uncaught :: "exn list"

text \<open>The constructor as the pool calls it, \<open>new SWP08Client({ host, port })\<close>.\<close>

definition new_SWP08Client :: "string \<Rightarrow> int \<Rightarrow> SWP08Client" where
  "new_SWP08Client h p =
     \<lparr>swp_host = h, swp_port = p, matrix = 0, level = 0, swp_connected = False,
      swp_responseBuffer = [], swp_uncaught = []\<rparr>"

definition destMsb :: "int \<Rightarrow> int" where
  "destMsb destination = js_and (js_shr destination 7) 0x7F"

definition destLsb :: "int \<Rightarrow> int" where
  "destLsb destination = js_and destination 0x7F"

definition srcMsb :: "int \<Rightarrow> int" where
  "srcMsb source = js_and (js_shr source 7) 0x7F"

definition srcLsb :: "int \<Rightarrow> int" where
  "srcLsb source = js_and source 0x7F"

definition connect_data :: "('a SWP08Client_scheme) \<Rightarrow> int \<Rightarrow> int \<Rightarrow> int list" where
  "connect_data c source destination =
     [COMMAND_CONNECT, matrix c, level c,
      destMsb destination, destLsb destination, srcMsb source, srcLsb source]"

text \<open>The loop \<open>for (const byte of data) checksum ^= byte\<close>, starting from 0.\<close>

definition checksum_of :: "int list \<Rightarrow> int" where
  "checksum_of data = foldl js_xor 0 data"

definition buildConnectCommand :: "('a SWP08Client_scheme) \<Rightarrow> int \<Rightarrow> int \<Rightarrow> byte list" where
  "buildConnectCommand c source destination =
     (let data = connect_data c source destination;
          checksum = checksum_of data
      in Buffer_from ([SOM] @ data @ [checksum, EOM, EOM2]))"

text \<open>
  The inverse of the split in the words of the specification, \<open>(MSB << 7) | LSB\<close>;
  the client itself has no decoder.
\<close>

definition spec_recombine :: "int \<Rightarrow> int \<Rightarrow> int" where
  "spec_recombine msb lsb = js_or (js_shl msb 7) lsb"

subsection \<open>Response framing\<close>

text \<open>\<open>Buffer.indexOf(value)\<close> with a number: the first position holding that byte.\<close>

fun indexOf :: "byte list \<Rightarrow> int \<Rightarrow> nat option" where
  "indexOf [] v = None"
| "indexOf (b # bs) v = (if b = word_of_int v then Some 0 else map_option Suc (indexOf bs v))"

text \<open>
  The inner loop \<open>for (i = startIdx + 1; i < length - 1; i++)\<close>, from position \<open>i\<close>
  on: the first \<open>i\<close> with \<open>buf[i] === EOM && buf[i + 1] === EOM2\<close>.
\<close>

function find_end :: "byte list \<Rightarrow> nat \<Rightarrow> nat option" where
  "find_end buf i =
     (if i + 1 < length buf
      then (if uint (buf ! i) = EOM \<and> uint (buf ! (i + 1)) = EOM2 then Some i
            else find_end buf (i + 1))
      else None)"
  by pat_completeness auto
termination
  by (relation "measure (\<lambda>(buf, i). length buf - i)") auto

declare find_end.simps [simp del]

definition subarray :: "byte list \<Rightarrow> nat \<Rightarrow> nat \<Rightarrow> byte list" where
  "subarray buf start end = take (end - start) (drop start buf)"

text \<open>
  \<open>processResponse\<close> returns the messages emitted as \<open>response\<close> events and the
  new \<open>responseBuffer\<close>. The body of the \<open>while\<close> ends in an unconditional
  \<open>break\<close>, so it runs at most once, whatever \<open>startIdx\<close> was reset to.
\<close>

definition processResponse :: "byte list \<Rightarrow> byte list list \<times> byte list" where
  "processResponse buf =
     (case indexOf buf SOM of
        None \<Rightarrow> ([], buf)
      | Some startIdx \<Rightarrow>
          (case find_end buf (startIdx + 1) of
             None \<Rightarrow> ([], buf)
           | Some i \<Rightarrow> ([subarray buf startIdx (i + 2)], drop (i + 2) buf)))"

text \<open>The socket's \<open>data\<close> handler: append the chunk, then one processing pass.\<close>

definition swp08_on_data :: "byte list \<Rightarrow> byte list \<Rightarrow> byte list list \<times> byte list" where
  "swp08_on_data buf data = processResponse (buf @ data)"

text \<open>A sequence of \<open>data\<close> events, one per chunk; the emitted messages in order.\<close>

fun swp08_deliver :: "byte list \<Rightarrow> byte list list \<Rightarrow> byte list list \<times> byte list" where
  "swp08_deliver buf [] = ([], buf)"
| "swp08_deliver buf (chunk # chunks) =
     (let (out, buf') = swp08_on_data buf chunk;
          (outs, buf'') = swp08_deliver buf' chunks
      in (out @ outs, buf''))"

text \<open>
  A frame in the format of the specification: SOM, the payload, the checksum, EOM, EOM2.
\<close>

definition frame_of :: "byte list \<Rightarrow> byte \<Rightarrow> byte list" where
  "frame_of payload checksum = Buffer_from [SOM] @ payload @ [checksum] @ Buffer_from [EOM, EOM2]"

text \<open>Whether a byte sequence holds the pair EOM, EOM2 at two adjacent positions.\<close>

fun has_end_pair :: "byte list \<Rightarrow> bool" where
  "has_end_pair (a # b # bs) = ((uint a = EOM \<and> uint b = EOM2) \<or> has_end_pair (b # bs))"
| "has_end_pair _ = False"

subsection \<open>Commands on the link\<close>

text \<open>
  \<open>connect()\<close> resolves at once on a connected client. Otherwise it makes a socket and
  registers its handlers. On \<open>connect\<close> it sets \<open>connected\<close> and resolves; on
  \<open>timeout\<close> it rejects with \<open>Connection timeout\<close>; on \<open>error\<close> it rejects with the
  error, and the second \<open>error\<close> handler, which the same event still reaches, emits
  \<open>error\<close> on the client, where nothing listens: the error is thrown out of the handler.
  In each case \<open>cleanup\<close> removes the socket's \<open>error\<close> and \<open>timeout\<close> handlers and
  leaves the \<open>data\<close> and \<open>close\<close> handlers in place.
\<close>

definition swp08_connect ::
  "SWP08Client \<Rightarrow> connect_outcome \<Rightarrow> exn option \<times> SWP08Client" where
  "swp08_connect c outcome =
     (if swp_connected c then (None, c)
      else (case outcome of
              Connects \<Rightarrow> (None, c\<lparr>swp_connected := True\<rparr>)
            | SocketError err \<Rightarrow> (Some err, c\<lparr>swp_uncaught := swp_uncaught c @ [err]\<rparr>)
            | ConnectTimeout \<Rightarrow> (Some (Error ''Connection timeout''), c)))"

text \<open>
  \<open>sendCommand\<close>: connect if needed, write, and settle with the first \<open>response\<close>
  event, the error given to the callback of the write, or \<open>Command timeout\<close>. The bytes
  written do not enter the state.
\<close>

definition swp08_sendCommand ::
  "SWP08Client \<Rightarrow> byte list link_env \<Rightarrow> (exn + byte list) \<times> SWP08Client" where
  "swp08_sendCommand c env =
     (case swp08_connect c (connecting env) of
        (Some e, c') \<Rightarrow> (Inl e, c')
      | (None, c') \<Rightarrow>
          (case write_error env of
             Some e \<Rightarrow> (Inl e, c')
           | None \<Rightarrow>
               (case responses env of
                  [] \<Rightarrow> (Inl (Error ''Command timeout''), c')
                | r # _ \<Rightarrow> (Inr r, c'))))"

text \<open>The arrow of the message texts, as the bytes of the source files.\<close>

definition arrow :: string where
  "arrow = [CHR 0xE2, CHR 0x86, CHR 0x92]"

definition arrow_swp08 :: string where
  "arrow_swp08 = [CHR 0xC3, CHR 0xA2, CHR 0xE2, CHR 0x80, CHR 0xA0, CHR 0xE2, CHR 0x80, CHR 0x99]"

text \<open>
  \<open>route\<close>: every exception of building and sending becomes a failure result. The
  scheduler passes the parsed payload values. \<open>buildConnectCommand\<close> converts the
  destination and then the source to numbers, which throws for the values that do not
  print; the message prints them after the response has come.
\<close>

definition swp08_route ::
  "SWP08Client \<Rightarrow> json \<Rightarrow> json \<Rightarrow> byte list link_env \<Rightarrow> Result \<times> SWP08Client" where
  "swp08_route c source destination env =
     (case js_toString destination of
        Inl error \<Rightarrow> (\<lparr>success = False, message = exn_message error\<rparr>, c)
      | Inr dst \<Rightarrow>
          (case js_toString source of
             Inl error \<Rightarrow> (\<lparr>success = False, message = exn_message error\<rparr>, c)
           | Inr src \<Rightarrow>
               (case swp08_sendCommand c env of
                  (Inr response, c') \<Rightarrow>
                    (\<lparr>success = True,
                      message = ''Route '' @ src @ '' '' @ arrow_swp08 @ '' '' @ dst
                                @ '' executed''\<rparr>, c')
                | (Inl error, c') \<Rightarrow>
                    (\<lparr>success = False, message = exn_message error\<rparr>, c'))))"

definition swp08_testConnection ::
  "SWP08Client \<Rightarrow> connect_outcome \<Rightarrow> Result \<times> SWP08Client" where
  "swp08_testConnection c err =
     (case swp08_connect c err of
        (None, c') \<Rightarrow> (\<lparr>success = True, message = ''Connected successfully''\<rparr>, c')
      | (Some error, c') \<Rightarrow> (\<lparr>success = False, message = exn_message error\<rparr>, c'))"

definition swp08_disconnect :: "SWP08Client \<Rightarrow> SWP08Client" where
  "swp08_disconnect c = c\<lparr>swp_connected := False\<rparr>"

section \<open>Link pools\<close>

text \<open>
  A pool is a \<open>Map\<close> from device id to client object. Clients are objects with an
  identity: \<open>objects\<close> holds every client ever constructed, a reference is a position in
  it, and \<open>clients\<close> is the map, in insertion order.
\<close>

record 'c pool =
  clients :: "(int \<times> nat) list"
  objects :: "'c list"

definition empty_pool :: "'c pool" where
  "empty_pool = \<lparr>clients = [], objects = []\<rparr>"

text \<open>
  \<open>getClient\<close>, the same code in both pools up to the constructor \<open>new\<close>: the
  reference returned and the pool afterwards.
\<close>

definition pool_getClient ::
  "(string \<Rightarrow> int \<Rightarrow> 'c) \<Rightarrow> 'c pool \<Rightarrow> int \<Rightarrow> string \<Rightarrow> int \<Rightarrow> nat \<times> 'c pool" where
  "pool_getClient new pool deviceId h p =
     (case map_of (clients pool) deviceId of
        Some client \<Rightarrow> (client, pool)
      | None \<Rightarrow>
          (let client = length (objects pool)
           in (client, \<lparr>clients = AList.update deviceId client (clients pool),
                        objects = objects pool @ [new h p]\<rparr>)))"

text \<open>A method call on the client a reference points to.\<close>

definition pool_call :: "'c pool \<Rightarrow> nat \<Rightarrow> ('c \<Rightarrow> 'a \<times> 'c) \<Rightarrow> 'a \<times> 'c pool" where
  "pool_call pool client method =
     (let (res, c') = method (objects pool ! client)
      in (res, pool\<lparr>objects := (objects pool)[client := c']\<rparr>))"

definition pool_disconnect :: "('c \<Rightarrow> 'c) \<Rightarrow> 'c pool \<Rightarrow> int \<Rightarrow> 'c pool" where
  "pool_disconnect disc pool deviceId =
     (case map_of (clients pool) deviceId of
        None \<Rightarrow> pool
      | Some client \<Rightarrow>
          \<lparr>clients = AList.delete deviceId (clients pool),
           objects = (objects pool)[client := disc (objects pool ! client)]\<rparr>)"

definition pool_disconnectAll :: "('c \<Rightarrow> 'c) \<Rightarrow> 'c pool \<Rightarrow> 'c pool" where
  "pool_disconnectAll disc pool =
     \<lparr>clients = [],
      objects = fold (\<lambda>client objs. objs[client := disc (objs ! client)])
                     (map snd (clients pool)) (objects pool)\<rparr>"

definition pool_getStatus :: "('c \<Rightarrow> bool) \<Rightarrow> 'c pool \<Rightarrow> int \<Rightarrow> bool" where
  "pool_getStatus isConnected pool deviceId =
     (case map_of (clients pool) deviceId of
        None \<Rightarrow> False
      | Some client \<Rightarrow> isConnected (objects pool ! client))"

subsection \<open>The pool of binary clients\<close>

type_synonym SWP08Pool = "SWP08Client pool"

definition SWP08Pool_getClient :: "SWP08Pool \<Rightarrow> int \<Rightarrow> string \<Rightarrow> int \<Rightarrow> nat \<times> SWP08Pool" where
  "SWP08Pool_getClient = pool_getClient new_SWP08Client"

definition SWP08Pool_route ::
  "SWP08Pool \<Rightarrow> int \<Rightarrow> string \<Rightarrow> int \<Rightarrow> json \<Rightarrow> json \<Rightarrow> byte list link_env
   \<Rightarrow> Result \<times> SWP08Pool" where
  "SWP08Pool_route pool deviceId h p source destination env =
     (let (client, pool') = SWP08Pool_getClient pool deviceId h p
      in pool_call pool' client (\<lambda>c. swp08_route c source destination env))"

definition SWP08Pool_testConnection ::
  "SWP08Pool \<Rightarrow> int \<Rightarrow> string \<Rightarrow> int \<Rightarrow> connect_outcome \<Rightarrow> Result \<times> SWP08Pool" where
  "SWP08Pool_testConnection pool deviceId h p err =
     (let (client, pool') = SWP08Pool_getClient pool deviceId h p
      in pool_call pool' client (\<lambda>c. swp08_testConnection c err))"

definition SWP08Pool_disconnect :: "SWP08Pool \<Rightarrow> int \<Rightarrow> SWP08Pool" where
  "SWP08Pool_disconnect = pool_disconnect swp08_disconnect"

definition SWP08Pool_disconnectAll :: "SWP08Pool \<Rightarrow> SWP08Pool" where
  "SWP08Pool_disconnectAll = pool_disconnectAll swp08_disconnect"

definition SWP08Pool_getStatus :: "SWP08Pool \<Rightarrow> int \<Rightarrow> bool" where
  "SWP08Pool_getStatus = pool_getStatus swp_connected"

text \<open>
  The operations on the pool of binary clients, and the socket's \<open>close\<close> event of a
  client, for sequences of them.
\<close>

datatype swp08_op =
    SwpGetClient int string int
  | SwpRoute int string int json json "byte list link_env"
  | SwpTestConnection int string int connect_outcome
  | SwpGetStatus int
  | SwpDisconnect int
  | SwpDisconnectAll
  | SwpSocketClosed nat

fun swp08_step :: "SWP08Pool \<Rightarrow> swp08_op \<Rightarrow> SWP08Pool" where
  "swp08_step pool (SwpGetClient d h p) = snd (SWP08Pool_getClient pool d h p)"
| "swp08_step pool (SwpRoute d h p s t env) = snd (SWP08Pool_route pool d h p s t env)"
| "swp08_step pool (SwpTestConnection d h p err) = snd (SWP08Pool_testConnection pool d h p err)"
| "swp08_step pool (SwpGetStatus d) = pool"
| "swp08_step pool (SwpDisconnect d) = SWP08Pool_disconnect pool d"
| "swp08_step pool SwpDisconnectAll = SWP08Pool_disconnectAll pool"
| "swp08_step pool (SwpSocketClosed client) =
     pool\<lparr>objects := (objects pool)[client := (objects pool ! client)\<lparr>swp_connected := False\<rparr>]\<rparr>"

fun swp08_evicts :: "int \<Rightarrow> swp08_op \<Rightarrow> bool" where
  "swp08_evicts d (SwpDisconnect d') = (d = d')"
| "swp08_evicts d SwpDisconnectAll = True"
| "swp08_evicts d _ = False"

section \<open>The line-oriented client (RossTalk)\<close>

definition CR :: char where "CR = CHR 0x0D"
definition LF :: char where "LF = CHR 0x0A"
definition CRLF :: string where "CRLF = [CR, LF]"

text \<open>
  \<open>String.prototype.split('\\r\\n')\<close>: the pieces between the successive occurrences of
  the separator, found from left to right; the empty string gives one empty piece.
\<close>

fun split_crlf :: "string \<Rightarrow> string list" where
  "split_crlf [] = [[]]"
| "split_crlf [c] = [[c]]"
| "split_crlf (c # d # cs) =
     (if c = CR \<and> d = LF then [] # split_crlf cs
      else (let r = split_crlf (d # cs) in (c # hd r) # tl r))"

text \<open>
  \<open>String.prototype.trim\<close>. A \<open>char\<close> is a character with code below 256 (the
  protocol is ASCII); the white space and line terminators in that range are TAB, LF, VT,
  FF, CR, SPACE and NBSP.
\<close>

definition js_white_space :: "char \<Rightarrow> bool" where
  "js_white_space c = (c \<in> set [CHR 0x09, CHR 0x0A, CHR 0x0B, CHR 0x0C, CHR 0x0D, CHR 0x20, CHR 0xA0])"

definition trim :: "string \<Rightarrow> string" where
  "trim s = rev (dropWhile js_white_space (rev (dropWhile js_white_space s)))"

text \<open>The loop \<open>for (const line of lines) if (line.trim()) emit('response', line.trim())\<close>.\<close>

fun emit_lines :: "string list \<Rightarrow> string list" where
  "emit_lines [] = []"
| "emit_lines (line # lines) =
     (if trim line \<noteq> [] then trim line # emit_lines lines else emit_lines lines)"

text \<open>
  The body of the socket's \<open>data\<close> handler: the \<open>response\<close> events emitted and the
  new \<open>responseBuffer\<close>. \<open>lines.pop() || ''\<close> is the last piece (\<open>split\<close> never
  returns an empty array).
\<close>

definition rosstalk_on_data :: "string \<Rightarrow> string \<Rightarrow> string list \<times> string" where
  "rosstalk_on_data buf data =
     (let lines = split_crlf (buf @ data)
      in (emit_lines (butlast lines), last lines))"

text \<open>Whether a string holds the separator CR LF.\<close>

fun has_crlf :: "string \<Rightarrow> bool" where
  "has_crlf (c # d # cs) = ((c = CR \<and> d = LF) \<or> has_crlf (d # cs))"
| "has_crlf _ = False"

subsection \<open>Commands on the link\<close>

text \<open>
  The client. \<open>rt_listening\<close> says whether the socket has the handlers that
  \<open>connect()\<close> registers (\<open>data\<close>, \<open>close\<close>, \<open>error\<close>); \<open>rt_uncaught\<close> holds the
  errors that \<open>connect()\<close> throws out of the socket's event handlers, which nothing
  catches; the program is followed as it goes on when the process survives them.
\<close>

record RossTalkClient =
  rt_host :: string
  rt_port :: int
  rt_connected :: bool
  rt_responseBuffer :: string
  rt_listening :: bool
  rt_uncaught :: "exn list"

definition new_RossTalkClient :: "string \<Rightarrow> int \<Rightarrow> RossTalkClient" where
  "new_RossTalkClient h p =
     \<lparr>rt_host = h, rt_port = p, rt_connected = False, rt_responseBuffer = [],
      rt_listening = False, rt_uncaught = []\<rparr>"

text \<open>
  \<open>cleanup\<close> of \<open>connect()\<close>: \<open>socket.removeAllListeners()\<close> with no event name
  removes every handler of the socket.
\<close>

definition rosstalk_cleanup :: "RossTalkClient \<Rightarrow> RossTalkClient" where
  "rosstalk_cleanup c = c\<lparr>rt_listening := False\<rparr>"

text \<open>
  \<open>connect()\<close> resolves at once on a connected client. Otherwise it makes a socket and
  registers its handlers, and the socket's \<open>connect\<close>, \<open>error\<close> or \<open>timeout\<close> event
  runs \<open>cleanup\<close> before it resolves or rejects: the \<open>data\<close> and \<open>close\<close> handlers
  are gone before any data can arrive. On \<open>error\<close> the second \<open>error\<close> handler, which
  the same event still reaches, emits \<open>error\<close> on the client, where nothing listens: the
  error is thrown out of the handler.
\<close>

definition rosstalk_connect ::
  "RossTalkClient \<Rightarrow> connect_outcome \<Rightarrow> exn option \<times> RossTalkClient" where
  "rosstalk_connect c outcome =
     (if rt_connected c then (None, c)
      else
        (let c1 = c\<lparr>rt_listening := True\<rparr>
         in (case outcome of
               Connects \<Rightarrow> (None, rosstalk_cleanup (c1\<lparr>rt_connected := True\<rparr>))
             | SocketError err \<Rightarrow>
                 (Some err, (rosstalk_cleanup c1)\<lparr>rt_uncaught := rt_uncaught c1 @ [err]\<rparr>)
             | ConnectTimeout \<Rightarrow>
                 (Some (Error ''Connection timeout''), rosstalk_cleanup c1))))"

text \<open>
  A \<open>data\<close> event of the socket with a chunk: the handler runs if it is registered.
\<close>

definition rosstalk_socket_data :: "RossTalkClient \<Rightarrow> string \<Rightarrow> string list \<times> RossTalkClient" where
  "rosstalk_socket_data c data =
     (if rt_listening c
      then (let (out, buf) = rosstalk_on_data (rt_responseBuffer c) data
            in (out, c\<lparr>rt_responseBuffer := buf\<rparr>))
      else ([], c))"

text \<open>A sequence of \<open>data\<close> events, one per chunk; the emitted events in order.\<close>

fun rosstalk_receive :: "RossTalkClient \<Rightarrow> string list \<Rightarrow> string list \<times> RossTalkClient" where
  "rosstalk_receive c [] = ([], c)"
| "rosstalk_receive c (chunk # chunks) =
     (let (out, c1) = rosstalk_socket_data c chunk;
          (outs, c2) = rosstalk_receive c1 chunks
      in (out @ outs, c2))"

text \<open>
  \<open>sendCommand\<close>: connect if needed, write, and settle with the argument of the first
  \<open>response\<close> event emitted while it waits, the error given to the callback of the
  write, or \<open>Command timeout\<close>. The events come from the \<open>data\<close> events of the socket.
\<close>

definition rosstalk_sendCommand ::
  "RossTalkClient \<Rightarrow> line_env \<Rightarrow> (exn + string) \<times> RossTalkClient" where
  "rosstalk_sendCommand c env =
     (case rosstalk_connect c (line_connecting env) of
        (Some e, c') \<Rightarrow> (Inl e, c')
      | (None, c') \<Rightarrow>
          (case line_write_error env of
             Some e \<Rightarrow> (Inl e, c')
           | None \<Rightarrow>
               (case rosstalk_receive c' (arrivals env) of
                  ([], c'') \<Rightarrow> (Inl (Error ''Command timeout''), c'')
                | (r # _, c'') \<Rightarrow> (Inr r, c''))))"

text \<open>
  \<open>sendTake\<close>: every exception, of printing the take id into the command as well,
  becomes a failure result.
\<close>

definition rosstalk_sendTake ::
  "RossTalkClient \<Rightarrow> json \<Rightarrow> line_env \<Rightarrow> Result \<times> RossTalkClient" where
  "rosstalk_sendTake c takeId env =
     (case js_toString takeId of
        Inl error \<Rightarrow> (\<lparr>success = False, message = exn_message error\<rparr>, c)
      | Inr text \<Rightarrow>
          (case rosstalk_sendCommand c env of
             (Inr response, c') \<Rightarrow>
               (\<lparr>success = True,
                 message = (if response \<noteq> [] then response
                            else ''Command sent successfully'')\<rparr>, c')
           | (Inl error, c') \<Rightarrow> (\<lparr>success = False, message = exn_message error\<rparr>, c')))"

definition rosstalk_testConnection ::
  "RossTalkClient \<Rightarrow> connect_outcome \<Rightarrow> Result \<times> RossTalkClient" where
  "rosstalk_testConnection c err =
     (case rosstalk_connect c err of
        (None, c') \<Rightarrow> (\<lparr>success = True, message = ''Connected successfully''\<rparr>, c')
      | (Some error, c') \<Rightarrow> (\<lparr>success = False, message = exn_message error\<rparr>, c'))"

text \<open>\<open>disconnect()\<close> removes the socket's handlers and drops the socket.\<close>

definition rosstalk_disconnect :: "RossTalkClient \<Rightarrow> RossTalkClient" where
  "rosstalk_disconnect c = c\<lparr>rt_listening := False, rt_connected := False\<rparr>"

text \<open>
  A \<open>close\<close> event of the socket: the handler, if it is registered, clears
  \<open>connected\<close>.
\<close>

definition rosstalk_socket_close :: "RossTalkClient \<Rightarrow> RossTalkClient" where
  "rosstalk_socket_close c = (if rt_listening c then c\<lparr>rt_connected := False\<rparr> else c)"

subsection \<open>The pool of line clients\<close>

type_synonym RossTalkPool = "RossTalkClient pool"

definition RossTalkPool_getClient ::
  "RossTalkPool \<Rightarrow> int \<Rightarrow> string \<Rightarrow> int \<Rightarrow> nat \<times> RossTalkPool" where
  "RossTalkPool_getClient = pool_getClient new_RossTalkClient"

definition RossTalkPool_sendTake ::
  "RossTalkPool \<Rightarrow> int \<Rightarrow> string \<Rightarrow> int \<Rightarrow> json \<Rightarrow> line_env \<Rightarrow> Result \<times> RossTalkPool" where
  "RossTalkPool_sendTake pool deviceId h p takeId env =
     (let (client, pool') = RossTalkPool_getClient pool deviceId h p
      in pool_call pool' client (\<lambda>c. rosstalk_sendTake c takeId env))"

definition RossTalkPool_testConnection ::
  "RossTalkPool \<Rightarrow> int \<Rightarrow> string \<Rightarrow> int \<Rightarrow> connect_outcome \<Rightarrow> Result \<times> RossTalkPool" where
  "RossTalkPool_testConnection pool deviceId h p err =
     (let (client, pool') = RossTalkPool_getClient pool deviceId h p
      in pool_call pool' client (\<lambda>c. rosstalk_testConnection c err))"

definition RossTalkPool_disconnect :: "RossTalkPool \<Rightarrow> int \<Rightarrow> RossTalkPool" where
  "RossTalkPool_disconnect = pool_disconnect rosstalk_disconnect"

definition RossTalkPool_disconnectAll :: "RossTalkPool \<Rightarrow> RossTalkPool" where
  "RossTalkPool_disconnectAll = pool_disconnectAll rosstalk_disconnect"

definition RossTalkPool_getStatus :: "RossTalkPool \<Rightarrow> int \<Rightarrow> bool" where
  "RossTalkPool_getStatus = pool_getStatus rt_connected"

datatype rosstalk_op =
    RtGetClient int string int
  | RtSendTake int string int json line_env
  | RtTestConnection int string int connect_outcome
  | RtGetStatus int
  | RtDisconnect int
  | RtDisconnectAll
  | RtSocketClosed nat

fun rosstalk_step :: "RossTalkPool \<Rightarrow> rosstalk_op \<Rightarrow> RossTalkPool" where
  "rosstalk_step pool (RtGetClient d h p) = snd (RossTalkPool_getClient pool d h p)"
| "rosstalk_step pool (RtSendTake d h p t env) = snd (RossTalkPool_sendTake pool d h p t env)"
| "rosstalk_step pool (RtTestConnection d h p err) = snd (RossTalkPool_testConnection pool d h p err)"
| "rosstalk_step pool (RtGetStatus d) = pool"
| "rosstalk_step pool (RtDisconnect d) = RossTalkPool_disconnect pool d"
| "rosstalk_step pool RtDisconnectAll = RossTalkPool_disconnectAll pool"
| "rosstalk_step pool (RtSocketClosed client) =
     pool\<lparr>objects := (objects pool)[client := rosstalk_socket_close (objects pool ! client)]\<rparr>"

fun rosstalk_evicts :: "int \<Rightarrow> rosstalk_op \<Rightarrow> bool" where
  "rosstalk_evicts d (RtDisconnect d') = (d = d')"
| "rosstalk_evicts d RtDisconnectAll = True"
| "rosstalk_evicts d _ = False"

section \<open>The record store\<close>

text \<open>
  The tables the scheduler reads and writes. Field names carry a prefix where two records
  share one (\<open>id\<close>, \<open>name\<close>, \<open>type\<close>, \<open>host\<close>, \<open>port\<close>, \<open>enabled\<close>).
  \<open>command_type\<close> and \<open>schedule_type\<close> are strings: the store casts whatever it is
  given. \<open>command_data\<close> is kept as what \<open>JSON.parse\<close> makes of the stored text: the
  SyntaxError it throws, or the value it returns.
\<close>

record DeviceRecord =
  dev_id :: int
  dev_name :: string
  dev_type :: string
  dev_host :: string
  dev_port :: int
  dev_enabled :: bool

record ScheduleRecord =
  sched_id :: int
  sched_name :: string
  device_id :: int
  command_type :: string
  command_data :: "exn + json"
  schedule_type :: string
  cron_expression :: "string option"
  run_at :: "js_date option"
  enabled :: bool
  last_run :: "js_date option"
  next_run :: "js_date option"

text \<open>A schedule joined with its device's address, as the scheduler holds it.\<close>

record ScheduleData = ScheduleRecord +
  host :: string
  port :: int
  device_type :: string

record CommandLogRecord =
  log_id :: int
  schedule_id :: "int option"
  log_device_id :: int
  command :: string
  status :: string
  response :: "string option"
  executed_at :: js_date

record DatabaseData =
  devices :: "DeviceRecord list"
  schedules :: "ScheduleRecord list"
  command_log :: "CommandLogRecord list"
  nextId_command_log :: int

text \<open>\<open>{ ...s, host, port, device_type }\<close>\<close>

definition with_device :: "ScheduleRecord \<Rightarrow> DeviceRecord \<Rightarrow> ScheduleData" where
  "with_device s device =
     ScheduleRecord.extend s
       (ScheduleData.fields (dev_host device) (dev_port device) (dev_type device))"

definition getDevice :: "DatabaseData \<Rightarrow> int \<Rightarrow> DeviceRecord option" where
  "getDevice data i = find (\<lambda>d. dev_id d = i) (devices data)"

definition getSchedule :: "DatabaseData \<Rightarrow> int \<Rightarrow> ScheduleRecord option" where
  "getSchedule data i = find (\<lambda>s. sched_id s = i) (schedules data)"

definition getEnabledSchedules :: "DatabaseData \<Rightarrow> ScheduleData list" where
  "getEnabledSchedules data =
     List.map_filter
       (\<lambda>s. map_option (with_device s)
              (find (\<lambda>d. dev_id d = device_id s \<and> dev_enabled d) (devices data)))
       (filter enabled (schedules data))"

text \<open>
  The partial record given to \<open>updateSchedule\<close>: \<open>None\<close> is a field that is
  \<open>undefined\<close>.
\<close>

record SchedulePatch =
  p_name :: "string option"
  p_device_id :: "int option"
  p_command_type :: "string option"
  p_command_data :: "(exn + json) option"
  p_schedule_type :: "string option"
  p_cron_expression :: "string option option"
  p_run_at :: "js_date option option"
  p_enabled :: "bool option"
  p_last_run :: "js_date option option"
  p_next_run :: "js_date option option"

definition no_patch :: SchedulePatch where
  "no_patch =
     \<lparr>p_name = None, p_device_id = None, p_command_type = None, p_command_data = None,
      p_schedule_type = None, p_cron_expression = None, p_run_at = None, p_enabled = None,
      p_last_run = None, p_next_run = None\<rparr>"

definition upd :: "'a option \<Rightarrow> 'a \<Rightarrow> 'a" where
  "upd new old = (case new of None \<Rightarrow> old | Some v \<Rightarrow> v)"

definition apply_patch :: "SchedulePatch \<Rightarrow> ScheduleRecord \<Rightarrow> ScheduleRecord" where
  "apply_patch patch existing =
     existing\<lparr>sched_name := upd (p_name patch) (sched_name existing),
              device_id := upd (p_device_id patch) (device_id existing),
              command_type := upd (p_command_type patch) (command_type existing),
              command_data := upd (p_command_data patch) (command_data existing),
              schedule_type := upd (p_schedule_type patch) (schedule_type existing),
              cron_expression := upd (p_cron_expression patch) (cron_expression existing),
              run_at := upd (p_run_at patch) (run_at existing),
              enabled := upd (p_enabled patch) (enabled existing),
              last_run := upd (p_last_run patch) (last_run existing),
              next_run := upd (p_next_run patch) (next_run existing)\<rparr>"

text \<open>The record that \<open>find\<close> returns is changed in place: the first with the id.\<close>

fun update_first :: "('a \<Rightarrow> bool) \<Rightarrow> ('a \<Rightarrow> 'a) \<Rightarrow> 'a list \<Rightarrow> 'a list" where
  "update_first P f [] = []"
| "update_first P f (x # xs) = (if P x then f x # xs else x # update_first P f xs)"

definition updateSchedule :: "DatabaseData \<Rightarrow> int \<Rightarrow> SchedulePatch \<Rightarrow> DatabaseData" where
  "updateSchedule data i patch =
     data\<lparr>schedules := update_first (\<lambda>s. sched_id s = i) (apply_patch patch) (schedules data)\<rparr>"

text \<open>
  \<open>createLog\<close> at the time \<open>now\<close>: the new row and the store. The table keeps its last
  10000 rows.
\<close>

definition createLog ::
  "DatabaseData \<Rightarrow> int \<Rightarrow> int \<Rightarrow> int \<Rightarrow> string \<Rightarrow> string \<Rightarrow> string
   \<Rightarrow> CommandLogRecord \<times> DatabaseData" where
  "createLog data now sid did cmd st resp =
     (let newLog = \<lparr>log_id = nextId_command_log data, schedule_id = Some sid,
                     log_device_id = did, command = cmd, status = st, response = Some resp,
                     executed_at = Instant now\<rparr>;
          rows = command_log data @ [newLog]
      in (newLog,
          data\<lparr>nextId_command_log := nextId_command_log data + 1,
               command_log := (if length rows > 10000 then drop (length rows - 10000) rows
                               else rows)\<rparr>))"

section \<open>The job scheduler\<close>

text \<open>
  A \<open>Job\<close> of the scheduling library: the schedule its callback closes over, which of
  the two callbacks it runs, and the time of its pending invocation
  (\<open>nextInvocation()\<close>); a job with none has no timer. \<open>cancel()\<close> drops the pending
  invocation.
\<close>

record Job =
  job_sched :: ScheduleData
  job_once :: bool
  pending :: "int option"

definition Job_cancel :: "Job \<Rightarrow> Job" where
  "Job_cancel job = job\<lparr>pending := None\<rparr>"

text \<open>
  The scheduler with the objects it reaches: the store, the registry \<open>jobs\<close> (a \<open>Map\<close>
  from schedule id to job, by reference into \<open>job_objects\<close>), the two pools, and the
  \<open>schedule:executed\<close> messages sent, with the window each went to.
\<close>

record Scheduler =
  db :: DatabaseData
  jobs :: "(int \<times> nat) list"
  job_objects :: "Job list"
  rossTalkPool :: RossTalkPool
  swp08Pool :: SWP08Pool
  ipc_sent :: "(nat \<times> CommandLogRecord) list"

definition new_Scheduler :: "DatabaseData \<Rightarrow> Scheduler" where
  "new_Scheduler data =
     \<lparr>db = data, jobs = [], job_objects = [], rossTalkPool = empty_pool,
      swp08Pool = empty_pool, ipc_sent = []\<rparr>"

text \<open>
  What lies outside the program during one operation: the clock (\<open>new Date()\<close>, in
  milliseconds), the library's reading of a cron expression (the first invocation after a
  time, \<open>None\<close> where it schedules nothing), the network during a command on each kind
  of link, and the open windows.
\<close>

record world =
  now :: int
  cron_next :: "string \<Rightarrow> int \<Rightarrow> int option"
  rosstalk_link :: line_env
  swp08_link :: "byte list link_env"
  windows :: "nat list"

definition cancelJob :: "Scheduler \<Rightarrow> int \<Rightarrow> Scheduler" where
  "cancelJob st scheduleId =
     (case map_of (jobs st) scheduleId of
        None \<Rightarrow> st
      | Some job \<Rightarrow>
          st\<lparr>job_objects := (job_objects st)[job := Job_cancel (job_objects st ! job)],
             jobs := AList.delete scheduleId (jobs st)\<rparr>)"

text \<open>
  \<open>schedule.scheduleJob(spec, callback)\<close> of the library: a job with a pending
  invocation, or \<open>null\<close>. For a date it also returns \<open>null\<close> when the date has passed.
\<close>

definition new_job :: "world \<Rightarrow> ScheduleData \<Rightarrow> Job option" where
  "new_job w sched =
     (if schedule_type sched = ''recurring'' \<and> cron_expression sched \<noteq> None
         \<and> cron_expression sched \<noteq> Some []
      then (case cron_expression sched of
              None \<Rightarrow> None
            | Some expr \<Rightarrow>
                (case cron_next w expr (now w) of
                   None \<Rightarrow> None
                 | Some t \<Rightarrow> Some \<lparr>job_sched = sched, job_once = False, pending = Some t\<rparr>))
      else if schedule_type sched = ''once'' \<and> run_at sched \<noteq> None
      then (case run_at sched of
              Some (Instant runDate) \<Rightarrow>
                (if runDate > now w
                 then (if runDate \<ge> now w
                       then Some \<lparr>job_sched = sched, job_once = True, pending = Some runDate\<rparr>
                       else None)
                 else None)
            | _ \<Rightarrow> None)
      else None)"

definition scheduleJob :: "Scheduler \<Rightarrow> world \<Rightarrow> ScheduleData \<Rightarrow> Scheduler" where
  "scheduleJob st w sched =
     (let st1 = cancelJob st (sched_id sched)
      in (case new_job w sched of
            None \<Rightarrow> st1
          | Some job \<Rightarrow>
              (let ref = length (job_objects st1);
                   st2 = st1\<lparr>job_objects := job_objects st1 @ [job],
                             jobs := AList.update (sched_id sched) ref (jobs st1)\<rparr>
               in (case pending job of
                     None \<Rightarrow> st2
                   | Some nextRun \<Rightarrow>
                       st2\<lparr>db := updateSchedule (db st2) (sched_id sched)
                                    (no_patch\<lparr>p_next_run := Some (Some (Instant nextRun))\<rparr>)\<rparr>))))"

definition loadSchedules :: "Scheduler \<Rightarrow> world \<Rightarrow> Scheduler" where
  "loadSchedules st w = fold (\<lambda>sched st'. scheduleJob st' w sched) (getEnabledSchedules (db st)) st"

subsection \<open>The execution pipeline\<close>

definition invalid_command :: Result where
  "invalid_command = \<lparr>success = False, message = ''Invalid command data''\<rparr>"

text \<open>
  The \<open>try\<close> block: an exception, or the result, the command text and the scheduler
  after the pool was used. The pools return a result for every outcome of the link, so
  the exceptions here are those of reading a property of \<open>null\<close> and of printing a
  value into the command text, both before the pool is called.
\<close>

definition try_send ::
  "Scheduler \<Rightarrow> world \<Rightarrow> ScheduleData \<Rightarrow> json \<Rightarrow> exn + (Result \<times> string \<times> Scheduler)" where
  "try_send st w sched commandData =
     (if command_type sched = ''take'' then
        (case get_prop commandData ''takeId'' of
           Inl e \<Rightarrow> Inl e
         | Inr None \<Rightarrow> Inr (invalid_command, ''UNKNOWN'', st)
         | Inr (Some takeId) \<Rightarrow>
             (case js_toString takeId of
                Inl e \<Rightarrow> Inl e
              | Inr text \<Rightarrow>
                  (let (result, pool') =
                         RossTalkPool_sendTake (rossTalkPool st) (device_id sched) (host sched)
                           (port sched) takeId (rosstalk_link w)
                   in Inr (result, ''TAKE '' @ text, st\<lparr>rossTalkPool := pool'\<rparr>))))
      else if command_type sched = ''route'' then
        (case get_prop commandData ''source'' of
           Inl e \<Rightarrow> Inl e
         | Inr None \<Rightarrow> Inr (invalid_command, ''UNKNOWN'', st)
         | Inr (Some source) \<Rightarrow>
             (case get_prop commandData ''destination'' of
                Inl e \<Rightarrow> Inl e
              | Inr None \<Rightarrow> Inr (invalid_command, ''UNKNOWN'', st)
              | Inr (Some destination) \<Rightarrow>
                  (case js_toString source of
                     Inl e \<Rightarrow> Inl e
                   | Inr src \<Rightarrow>
                       (case js_toString destination of
                          Inl e \<Rightarrow> Inl e
                        | Inr dst \<Rightarrow>
                            (let (result, pool') =
                                   SWP08Pool_route (swp08Pool st) (device_id sched)
                                     (host sched) (port sched) source destination
                                     (swp08_link w)
                             in Inr (result,
                                     ''ROUTE '' @ src @ '' '' @ arrow @ '' '' @ dst,
                                     st\<lparr>swp08Pool := pool'\<rparr>))))))
      else Inr (invalid_command, ''UNKNOWN'', st))"

text \<open>
  The command text computed in the \<open>catch\<close> block; it reads and prints the payload
  again.
\<close>

definition catch_command :: "ScheduleData \<Rightarrow> json \<Rightarrow> exn + string" where
  "catch_command sched commandData =
     (if command_type sched = ''take'' then
        (case get_prop commandData ''takeId'' of
           Inl e \<Rightarrow> Inl e
         | Inr takeId \<Rightarrow>
             (case js_toString_opt takeId of
                Inl e \<Rightarrow> Inl e
              | Inr text \<Rightarrow> Inr (''TAKE '' @ text)))
      else
        (case get_prop commandData ''source'' of
           Inl e \<Rightarrow> Inl e
         | Inr source \<Rightarrow>
             (case js_toString_opt source of
                Inl e \<Rightarrow> Inl e
              | Inr src \<Rightarrow>
                  (case get_prop commandData ''destination'' of
                     Inl e \<Rightarrow> Inl e
                   | Inr destination \<Rightarrow>
                       (case js_toString_opt destination of
                          Inl e \<Rightarrow> Inl e
                        | Inr dst \<Rightarrow>
                            Inr (''ROUTE '' @ src @ '' '' @ arrow @ '' '' @ dst))))))"

text \<open>
  After the \<open>try\<close>/\<open>catch\<close>: the log row, \<open>last_run\<close>, \<open>next_run\<close> from the
  registered job's next invocation, and the message to every window.
\<close>

definition record_run :: "Scheduler \<Rightarrow> world \<Rightarrow> ScheduleData \<Rightarrow> Result \<Rightarrow> string \<Rightarrow> Scheduler" where
  "record_run st w sched result cmd =
     (let (log, data1) =
            createLog (db st) (now w) (sched_id sched) (device_id sched) cmd
              (if success result then ''success'' else ''error'') (message result);
          data2 = updateSchedule data1 (sched_id sched)
                    (no_patch\<lparr>p_last_run := Some (Some (Instant (now w)))\<rparr>);
          data3 = (case map_of (jobs st) (sched_id sched) of
                     None \<Rightarrow> data2
                   | Some job \<Rightarrow>
                       (case pending (job_objects st ! job) of
                          None \<Rightarrow> data2
                        | Some nextRun \<Rightarrow>
                            updateSchedule data2 (sched_id sched)
                              (no_patch\<lparr>p_next_run := Some (Some (Instant nextRun))\<rparr>)))
      in st\<lparr>db := data3, ipc_sent := ipc_sent st @ map (\<lambda>win. (win, log)) (windows w)\<rparr>)"

text \<open>
  \<open>executeCommand\<close>: the exception that leaves it, if any, and the scheduler
  afterwards. \<open>JSON.parse\<close> stands before the \<open>try\<close>.
\<close>

definition executeCommand :: "Scheduler \<Rightarrow> world \<Rightarrow> ScheduleData \<Rightarrow> exn option \<times> Scheduler" where
  "executeCommand st w sched =
     (case command_data sched of
        Inl e \<Rightarrow> (Some e, st)
      | Inr commandData \<Rightarrow>
          (case try_send st w sched commandData of
             Inr (result, cmd, st1) \<Rightarrow> (None, record_run st1 w sched result cmd)
           | Inl error \<Rightarrow>
               (case catch_command sched commandData of
                  Inl e \<Rightarrow> (Some e, st)
                | Inr cmd \<Rightarrow>
                    (None, record_run st w sched
                             \<lparr>success = False, message = exn_message error\<rparr> cmd))))"

definition runNow :: "Scheduler \<Rightarrow> world \<Rightarrow> int \<Rightarrow> (exn + Result) \<times> Scheduler" where
  "runNow st w scheduleId =
     (case getSchedule (db st) scheduleId of
        None \<Rightarrow> (Inr \<lparr>success = False, message = ''Schedule not found''\<rparr>, st)
      | Some sched \<Rightarrow>
          (case getDevice (db st) (device_id sched) of
             None \<Rightarrow> (Inr \<lparr>success = False, message = ''Device not found''\<rparr>, st)
           | Some device \<Rightarrow>
               (case executeCommand st w (with_device sched device) of
                  (Some e, st') \<Rightarrow> (Inl e, st')
                | (None, st') \<Rightarrow> (Inr \<lparr>success = True, message = ''Command executed''\<rparr>, st'))))"

subsection \<open>Timers\<close>

text \<open>
  The timer of a job fires. The library first replaces the pending invocation (by the
  next recurrence of a cron job, by none for a date) and then runs the callback: the
  recurring callback is \<open>executeCommand(sched)\<close>; the one-time callback also disables
  the schedule. \<open>executeCommand\<close> is not awaited, so an exception in it does not stop
  the callback. A job with no pending invocation does not fire.
\<close>

definition fire :: "Scheduler \<Rightarrow> world \<Rightarrow> nat \<Rightarrow> Scheduler" where
  "fire st w ref =
     (if ref < length (job_objects st) then
        (let job = job_objects st ! ref;
             sched = job_sched job
         in (case pending job of
               None \<Rightarrow> st
             | Some t \<Rightarrow>
                 (if job_once job then
                    (let st1 = st\<lparr>job_objects := (job_objects st)[ref := job\<lparr>pending := None\<rparr>]\<rparr>;
                         st2 = snd (executeCommand st1 w sched)
                     in st2\<lparr>db := updateSchedule (db st2) (sched_id sched)
                                     (no_patch\<lparr>p_enabled := Some False\<rparr>)\<rparr>)
                  else
                    (let next = (case cron_expression sched of
                                   None \<Rightarrow> None
                                 | Some expr \<Rightarrow> cron_next w expr t);
                         st1 = st\<lparr>job_objects := (job_objects st)[ref := job\<lparr>pending := next\<rparr>]\<rparr>
                     in snd (executeCommand st1 w sched)))))
      else st)"

subsection \<open>The remaining operations\<close>

definition addSchedule :: "Scheduler \<Rightarrow> world \<Rightarrow> int \<Rightarrow> Scheduler" where
  "addSchedule st w scheduleId =
     (case find (\<lambda>s. sched_id s = scheduleId) (getEnabledSchedules (db st)) of
        None \<Rightarrow> st
      | Some sched \<Rightarrow> scheduleJob st w sched)"

definition updateSchedule_job :: "Scheduler \<Rightarrow> world \<Rightarrow> int \<Rightarrow> Scheduler" where
  "updateSchedule_job st w scheduleId = addSchedule (cancelJob st scheduleId) w scheduleId"

definition enableSchedule :: "Scheduler \<Rightarrow> world \<Rightarrow> int \<Rightarrow> Scheduler" where
  "enableSchedule st w scheduleId = addSchedule st w scheduleId"

definition disableSchedule :: "Scheduler \<Rightarrow> int \<Rightarrow> Scheduler" where
  "disableSchedule st scheduleId = cancelJob st scheduleId"

definition stopAll :: "Scheduler \<Rightarrow> Scheduler" where
  "stopAll st =
     st\<lparr>job_objects := fold (\<lambda>job objs. objs[job := Job_cancel (objs ! job)])
                             (map snd (jobs st)) (job_objects st),
        jobs := [],
        rossTalkPool := RossTalkPool_disconnectAll (rossTalkPool st),
        swp08Pool := SWP08Pool_disconnectAll (swp08Pool st)\<rparr>"

text \<open>
  Sequences of operations: the methods of the scheduler, a timer firing, and any change
  the rest of the application makes to the store.
\<close>

datatype scheduler_op =
    LoadSchedules world
  | ScheduleJob world ScheduleData
  | AddSchedule world int
  | UpdateSchedule world int
  | EnableSchedule world int
  | DisableSchedule int
  | CancelJob int
  | RunNow world int
  | Fire world nat
  | StopAll
  | StoreChange "DatabaseData \<Rightarrow> DatabaseData"

fun scheduler_step :: "Scheduler \<Rightarrow> scheduler_op \<Rightarrow> Scheduler" where
  "scheduler_step st (LoadSchedules w) = loadSchedules st w"
| "scheduler_step st (ScheduleJob w sched) = scheduleJob st w sched"
| "scheduler_step st (AddSchedule w i) = addSchedule st w i"
| "scheduler_step st (UpdateSchedule w i) = updateSchedule_job st w i"
| "scheduler_step st (EnableSchedule w i) = enableSchedule st w i"
| "scheduler_step st (DisableSchedule i) = disableSchedule st i"
| "scheduler_step st (CancelJob i) = cancelJob st i"
| "scheduler_step st (RunNow w i) = snd (runNow st w i)"
| "scheduler_step st (Fire w ref) = fire st w ref"
| "scheduler_step st StopAll = stopAll st"
| "scheduler_step st (StoreChange f) = st\<lparr>db := f (db st)\<rparr>"

text \<open>
  The timers alive for a schedule id: the jobs with a pending invocation whose callback
  runs that schedule.
\<close>

definition live_jobs :: "Scheduler \<Rightarrow> int \<Rightarrow> nat list" where
  "live_jobs st i =
     filter (\<lambda>ref. pending (job_objects st ! ref) \<noteq> None
                    \<and> sched_id (job_sched (job_objects st ! ref)) = i)
            [0 ..< length (job_objects st)]"

section \<open>Notions used in the statements and proofs\<close>

text \<open>The position of the first pair EOM, EOM2 in a byte sequence.\<close>

fun first_pair :: "byte list \<Rightarrow> nat option" where
  "first_pair (a # b # bs) =
     (if uint a = EOM \<and> uint b = EOM2 then Some 0 else map_option Suc (first_pair (b # bs)))"
| "first_pair _ = None"

text \<open>Every reference held by a pool points to a client object.\<close>

definition pool_wf :: "'c pool \<Rightarrow> bool" where
  "pool_wf pool = list_all (\<lambda>(d, client). client < length (objects pool)) (clients pool)"

text \<open>
  A registration that is kept: the pool maps device \<open>d\<close> to the client \<open>r\<close>, whose
  address is \<open>v\<close>.
\<close>

definition holds :: "('c \<Rightarrow> 'k) \<Rightarrow> int \<Rightarrow> nat \<Rightarrow> 'k \<Rightarrow> 'c pool \<Rightarrow> bool" where
  "holds key d r v pool = (pool_wf pool \<and> map_of (clients pool) d = Some r \<and> key (objects pool ! r) = v)"

definition swp_key :: "SWP08Client \<Rightarrow> string \<times> int" where
  "swp_key c = (swp_host c, swp_port c)"

definition rt_key :: "RossTalkClient \<Rightarrow> string \<times> int" where
  "rt_key c = (rt_host c, rt_port c)"

text \<open>
  Every job with a pending invocation is the entry of the registry for the schedule its
  callback runs.
\<close>

definition registry_inv :: "Scheduler \<Rightarrow> bool" where
  "registry_inv st =
     (\<forall>ref < length (job_objects st).
        pending (job_objects st ! ref) \<noteq> None \<longrightarrow>
        map_of (jobs st) (sched_id (job_sched (job_objects st ! ref))) = Some ref)"

text \<open>The registry has one entry per key, and every entry points to a job object.\<close>

definition refs_valid :: "Scheduler \<Rightarrow> bool" where
  "refs_valid st =
     (distinct (map fst (jobs st))
      \<and> list_all (\<lambda>(k, r). r < length (job_objects st)) (jobs st))"

subsection \<open>An example store\<close>

text \<open>
  One graphics device and one enabled one-time schedule, \<open>TAKE 7\<close> at time 5000; a world
  at time 1000 in which the device refuses the connection.
\<close>

definition example_device :: DeviceRecord where
  "example_device =
     \<lparr>dev_id = 1, dev_name = ''gfx'', dev_type = ''xpression'', dev_host = ''10.0.0.5'',
      dev_port = 7788, dev_enabled = True\<rparr>"

definition example_schedule :: ScheduleRecord where
  "example_schedule =
     \<lparr>sched_id = 7, sched_name = ''opener'', device_id = 1, command_type = ''take'',
      command_data = Inr (JObject [(''takeId'', JNum 7)]), schedule_type = ''once'',
      cron_expression = None, run_at = Some (Instant 5000), enabled = True, last_run = None,
      next_run = None\<rparr>"

definition example_db :: DatabaseData where
  "example_db =
     \<lparr>devices = [example_device], schedules = [example_schedule], command_log = [],
      nextId_command_log = 1\<rparr>"

definition example_world :: world where
  "example_world =
     \<lparr>now = 1000, cron_next = (\<lambda>expr t. Some (t + 60000)),
      rosstalk_link = \<lparr>line_connecting = SocketError (Error ''connect ECONNREFUSED''),
                       line_write_error = None, arrivals = []\<rparr>,
      swp08_link = \<lparr>connecting = Connects, write_error = None, responses = []\<rparr>,
      windows = [0]\<rparr>"

section \<open>Properties of the command builder\<close>

lemma byte_of_js_xor: "(word_of_int (js_xor a b) :: byte) = word_of_int a XOR word_of_int b"
  unfolding js_xor_def ToInt32_def
  by (rule bit_word_eqI) (auto simp add: bit_simps)

text \<open>
  Claim C4. In every frame that \<open>buildConnectCommand\<close> builds, for any source,
  destination, matrix and level, the byte before EOM is the exclusive or of the seven
  bytes between SOM and it (opcode, matrix, level, destination MSB and LSB, source MSB and
  LSB) and of nothing else; the frame has eleven bytes, SOM first, EOM and EOM2 last.
\<close>

theorem buildConnectCommand_checksum:
  "length (buildConnectCommand c source destination) = 11
   \<and> take 7 (drop 1 (buildConnectCommand c source destination))
       = Buffer_from [COMMAND_CONNECT, matrix c, level c, destMsb destination,
                      destLsb destination, srcMsb source, srcLsb source]
   \<and> buildConnectCommand c source destination ! 8
       = foldl (XOR) 0 (take 7 (drop 1 (buildConnectCommand c source destination)))
   \<and> buildConnectCommand c source destination ! 0 = word_of_int SOM
   \<and> drop 9 (buildConnectCommand c source destination) = Buffer_from [EOM, EOM2]"
  by (simp add: buildConnectCommand_def Let_def Buffer_from_def connect_data_def
        checksum_of_def byte_of_js_xor)

lemma and_0x7F_take_bit: "(w :: 32 word) AND 0x7F = take_bit 7 w"
proof -
  have e: "(0x7F :: 32 word) = mask 7"
    by (simp add: mask_eq_exp_minus_1)
  show ?thesis
    unfolding e by (simp add: take_bit_eq_mask)
qed

lemma sint_small: "0 \<le> y \<Longrightarrow> y < 2 ^ 31 \<Longrightarrow> sint (word_of_int y :: 32 word) = y"
  by (simp add: sint_sbintrunc' signed_take_bit_int_eq_self)

lemma js_and_0x7F: "js_and x 0x7F = take_bit 7 x"
proof -
  have r: "0 \<le> take_bit 7 x" "take_bit 7 x < 2 ^ 31"
    using take_bit_int_less_exp[of 7 x] by simp_all
  have "take_bit 7 (word_of_int x :: 32 word) = word_of_int (take_bit 7 x)"
    by (simp add: take_bit_of_int)
  then have "sint (take_bit 7 (word_of_int x :: 32 word)) = take_bit 7 x"
    using sint_small[OF r] by simp
  then show ?thesis
    by (simp add: js_and_def ToInt32_def and_0x7F_take_bit)
qed

lemma byte_of_7bit: "uint (word_of_int (js_and x 0x7F) :: byte) = js_and x 0x7F"
  unfolding js_and_0x7F
  by (simp add: uint_word_of_int take_bit_eq_mod)

lemma recombine_word:
  fixes w :: "32 word"
  assumes "take_bit 14 w = w"
  shows "push_bit 7 (take_bit 7 (signed_drop_bit 7 w)) OR take_bit 7 w = w"
proof (rule bit_word_eqI)
  fix n assume n: "n < LENGTH(32)"
  have hi: "k < 14" if "bit w k" for k
    using assms that by (metis bit_take_bit_iff)
  have "\<not> bit w 31"
    using hi[of 31] by auto
  then show "bit (push_bit 7 (take_bit 7 (signed_drop_bit 7 w)) OR take_bit 7 w) n = bit w n"
    using n by (auto simp add: bit_simps dest: hi)
qed

lemma split_recombine:
  assumes "0 \<le> v" "v \<le> 16383"
  shows "spec_recombine (js_and (js_shr v 7) 0x7F) (js_and v 0x7F) = v"
proof -
  let ?w = "word_of_int v :: 32 word"
  have "take_bit 14 v = v"
    using assms by (simp add: take_bit_int_eq_self)
  then have tb: "take_bit 14 ?w = ?w"
    by (metis take_bit_of_int)
  have s: "sint ?w = v"
    using assms by (simp add: sint_small)
  show ?thesis
    using recombine_word[OF tb] s
    by (simp add: spec_recombine_def js_or_def js_shl_def js_and_def js_shr_def ToInt32_def
          and_0x7F_take_bit)
qed

text \<open>
  Claim C5. For a source and a destination between 0 and 16383, the split
  \<open>MSB = (value >> 7) & 0x7F\<close>, \<open>LSB = value & 0x7F\<close> of the builder, recombined as
  \<open>(MSB << 7) | LSB\<close>, gives the value back; so do the four bytes of the frame that
  carry the destination and the source.
\<close>

theorem split_roundtrip:
  assumes "0 \<le> source" "source \<le> 16383" "0 \<le> destination" "destination \<le> 16383"
  shows "spec_recombine (destMsb destination) (destLsb destination) = destination
       \<and> spec_recombine (srcMsb source) (srcLsb source) = source
       \<and> spec_recombine (uint (buildConnectCommand c source destination ! 4))
                         (uint (buildConnectCommand c source destination ! 5)) = destination
       \<and> spec_recombine (uint (buildConnectCommand c source destination ! 6))
                         (uint (buildConnectCommand c source destination ! 7)) = source"
proof -
  have d: "spec_recombine (destMsb destination) (destLsb destination) = destination"
    unfolding destMsb_def destLsb_def using assms(3,4) by (rule split_recombine)
  have s: "spec_recombine (srcMsb source) (srcLsb source) = source"
    unfolding srcMsb_def srcLsb_def using assms(1,2) by (rule split_recombine)
  have b: "uint (buildConnectCommand c source destination ! 4) = destMsb destination"
       "uint (buildConnectCommand c source destination ! 5) = destLsb destination"
       "uint (buildConnectCommand c source destination ! 6) = srcMsb source"
       "uint (buildConnectCommand c source destination ! 7) = srcLsb source"
    by (simp_all add: buildConnectCommand_def connect_data_def Buffer_from_def Let_def
          destMsb_def destLsb_def srcMsb_def srcLsb_def byte_of_7bit)
  show ?thesis
    using d s by (simp add: b)
qed

theorem split_roundtrip_witness:
  "(0::int) \<le> 300 \<and> (300::int) \<le> 16383 \<and> (0::int) \<le> 16383 \<and> (16383::int) \<le> 16383
   \<and> spec_recombine (destMsb 16383) (destLsb 16383) = 16383
   \<and> spec_recombine (srcMsb 300) (srcLsb 300) = 300
   \<and> spec_recombine (uint (buildConnectCommand (new_SWP08Client ''router'' 2000) 300 16383 ! 4))
                     (uint (buildConnectCommand (new_SWP08Client ''router'' 2000) 300 16383 ! 5))
       = 16383
   \<and> spec_recombine (uint (buildConnectCommand (new_SWP08Client ''router'' 2000) 300 16383 ! 6))
                     (uint (buildConnectCommand (new_SWP08Client ''router'' 2000) 300 16383 ! 7))
       = 300"
  using split_roundtrip [of 300 16383 "new_SWP08Client ''router'' 2000"] by simp

section \<open>Properties of the response framing\<close>

lemma find_end_first_pair:
  "find_end buf i = map_option (\<lambda>k. k + i) (first_pair (drop i buf))"
proof (induction buf i rule: find_end.induct)
  case (1 buf i)
  show ?case
  proof (cases "i + 1 < length buf")
    case True
    then have d: "drop i buf = buf ! i # buf ! (i + 1) # drop (i + 2) buf"
      by (metis Cons_nth_drop_Suc Suc_eq_plus1 Suc_lessD add_2_eq_Suc')
    have d1: "drop (Suc i) buf = buf ! Suc i # drop (Suc (Suc i)) buf"
      using True by (simp add: Cons_nth_drop_Suc)
    show ?thesis
    proof (cases "uint (buf ! i) = EOM \<and> uint (buf ! (i + 1)) = EOM2")
      case True
      with \<open>i + 1 < length buf\<close> show ?thesis
        by (subst find_end.simps) (simp add: d)
    next
      case False
      have "find_end buf i = find_end buf (i + 1)"
        using False \<open>i + 1 < length buf\<close> by (subst find_end.simps) auto
      also have "\<dots> = map_option (\<lambda>k. k + (i + 1)) (first_pair (drop (i + 1) buf))"
        using 1 False \<open>i + 1 < length buf\<close> by blast
      also have "\<dots> = map_option (\<lambda>k. k + i) (map_option Suc (first_pair (drop (i + 1) buf)))"
        by (simp add: option.map_comp comp_def)
      also have "\<dots> = map_option (\<lambda>k. k + i) (first_pair (drop i buf))"
        using False by (auto simp add: d d1)
      finally show ?thesis .
    qed
  next
    case False
    then have "length (drop i buf) \<le> 1" by simp
    then have "first_pair (drop i buf) = None"
      by (cases "drop i buf" rule: first_pair.cases) auto
    with False show ?thesis
      by (subst find_end.simps) simp
  qed
qed

lemma first_pair_None_iff: "first_pair xs = None \<longleftrightarrow> \<not> has_end_pair xs"
  by (induction xs rule: has_end_pair.induct) auto

lemma first_pair_complete:
  "\<not> has_end_pair body \<Longrightarrow> first_pair (body @ 0x10 # 0x11 # rest) = Some (length body)"
  by (induction body rule: has_end_pair.induct) (auto simp add: EOM_def EOM2_def)

lemma has_end_pair_append: "has_end_pair P \<Longrightarrow> has_end_pair (P @ S)"
  by (induction P rule: has_end_pair.induct) (auto simp: neq_Nil_conv)

lemma has_end_pair_snoc_EOM: "has_end_pair (body @ [0x10]) = has_end_pair body"
  by (induction body rule: has_end_pair.induct) (auto simp add: EOM_def EOM2_def)

lemma proper_prefix_no_pair:
  assumes "\<not> has_end_pair body" "P @ S = body @ [0x10, 0x11]" "S \<noteq> []"
  shows "\<not> has_end_pair P"
proof -
  from assms(3) obtain S' x where S: "S = S' @ [x]"
    by (metis rev_exhaust)
  with assms(2) have "P @ S' = body @ [0x10]"
    by (metis append_assoc butlast_snoc butlast_append append.right_neutral append_Cons append_Nil last_snoc  list.distinct(1) snoc_eq_iff_butlast)
  then have "has_end_pair P \<Longrightarrow> has_end_pair (body @ [0x10])"
    using has_end_pair_append by metis
  with assms(1) show ?thesis
    by (auto simp add: has_end_pair_snoc_EOM)
qed

lemma frame_of_eq: "frame_of payload checksum = 0x10 # (payload @ [checksum]) @ [0x10, 0x11]"
  by (simp add: frame_of_def Buffer_from_def SOM_def EOM_def EOM2_def)

lemma processResponse_Nil: "processResponse [] = ([], [])"
  by (simp add: processResponse_def)

lemma processResponse_complete:
  assumes "\<not> has_end_pair body"
  shows "processResponse ((0x10 # body @ [0x10, 0x11]) @ rest) = ([0x10 # body @ [0x10, 0x11]], rest)"
  using first_pair_complete[OF assms, of rest]
  by (simp add: processResponse_def SOM_def find_end_first_pair subarray_def)

lemma processResponse_prefix:
  assumes "\<not> has_end_pair body" "P @ S = 0x10 # body @ [0x10, 0x11]" "S \<noteq> []"
  shows "processResponse P = ([], P)"
proof (cases P)
  case Nil
  then show ?thesis by (simp add: processResponse_Nil)
next
  case (Cons a P')
  with assms(2) have a: "a = 0x10" and P': "P' @ S = body @ [0x10, 0x11]"
    by simp_all
  have "\<not> has_end_pair P'"
    using proper_prefix_no_pair[OF assms(1) P' assms(3)] .
  then have "first_pair P' = None"
    by (simp add: first_pair_None_iff)
  then show ?thesis
    by (simp add: Cons a processResponse_def SOM_def find_end_first_pair)
qed

lemma deliver_empty_chunks:
  "concat chunks = [] \<Longrightarrow> swp08_deliver [] chunks = ([], [])"
  by (induction chunks) (auto simp add: swp08_on_data_def processResponse_Nil)

lemma deliver_frame:
  assumes "\<not> has_end_pair body"
  shows "P @ concat chunks = 0x10 # body @ [0x10, 0x11] \<Longrightarrow> concat chunks \<noteq> []
         \<Longrightarrow> swp08_deliver P chunks = ([0x10 # body @ [0x10, 0x11]], [])"
proof (induction chunks arbitrary: P)
  case Nil
  then show ?case by simp
next
  case (Cons chunk chunks)
  show ?case
  proof (cases "concat chunks = []")
    case True
    with Cons.prems have "P @ chunk = (0x10 # body @ [0x10, 0x11]) @ []"
      by simp
    then have "processResponse (P @ chunk) = ([0x10 # body @ [0x10, 0x11]], [])"
      using processResponse_complete[OF assms, of "[]"] by simp
    then show ?thesis
      using True by (simp add: swp08_on_data_def deliver_empty_chunks)
  next
    case False
    have "(P @ chunk) @ concat chunks = 0x10 # body @ [0x10, 0x11]"
      using Cons.prems by simp
    then have "processResponse (P @ chunk) = ([], P @ chunk)"
      using processResponse_prefix[OF assms _ False] by blast
    moreover have "swp08_deliver (P @ chunk) chunks = ([0x10 # body @ [0x10, 0x11]], [])"
      using Cons.IH[of "P @ chunk"] Cons.prems False by simp
    ultimately show ?thesis
      by (simp add: swp08_on_data_def)
  qed
qed

text \<open>
  Claim C3, as the code has it. A frame SOM, payload, checksum, EOM, EOM2 whose payload
  and checksum hold no pair EOM, EOM2, delivered to an empty buffer in any number of
  chunks (empty ones included), is emitted exactly once, byte for byte, as it is when
  delivered whole, and leaves the buffer empty; a processing pass that emits a frame
  advances the buffer past it, whatever follows.
\<close>

theorem fragmented_frame_emitted_once:
  assumes "\<not> has_end_pair (payload @ [checksum])"
      and "concat chunks = frame_of payload checksum"
  shows "swp08_deliver [] chunks = ([frame_of payload checksum], [])
       \<and> swp08_deliver [] chunks = swp08_deliver [] [frame_of payload checksum]
       \<and> processResponse (frame_of payload checksum @ rest) = ([frame_of payload checksum], rest)"
proof -
  have ne: "concat chunks \<noteq> []"
    using assms(2) by (simp add: frame_of_eq)
  have a: "swp08_deliver [] chunks = ([frame_of payload checksum], [])"
    using deliver_frame[OF assms(1), of "[]" chunks] assms(2) ne by (simp add: frame_of_eq)
  have b: "swp08_deliver [] [frame_of payload checksum] = ([frame_of payload checksum], [])"
    using deliver_frame[OF assms(1), of "[]" "[frame_of payload checksum]"] by (simp add: frame_of_eq)
  have c: "processResponse (frame_of payload checksum @ rest) = ([frame_of payload checksum], rest)"
    using processResponse_complete[OF assms(1), of rest] by (simp add: frame_of_eq)
  show ?thesis using a b c by simp
qed

text \<open>
  The route command for source 3 and destination 5, in five chunks.
\<close>

theorem fragmented_frame_emitted_once_witness:
  "\<not> has_end_pair ([0x02, 0, 0, 0, 5, 0, 3] @ [0x04])
   \<and> concat [[0x10, 0x02], [], [0, 0, 0, 5, 0], [3, 0x04, 0x10], [0x11]] = frame_of [0x02, 0, 0, 0, 5, 0, 3] 0x04
   \<and> swp08_deliver [] [[0x10, 0x02], [], [0, 0, 0, 5, 0], [3, 0x04, 0x10], [0x11]] = ([frame_of [0x02, 0, 0, 0, 5, 0, 3] 0x04], [])
   \<and> swp08_deliver [] [[0x10, 0x02], [], [0, 0, 0, 5, 0], [3, 0x04, 0x10], [0x11]] = swp08_deliver [] [frame_of [0x02, 0, 0, 0, 5, 0, 3] 0x04]
   \<and> processResponse (frame_of [0x02, 0, 0, 0, 5, 0, 3] 0x04 @ [0x10, 0x07]) = ([frame_of [0x02, 0, 0, 0, 5, 0, 3] 0x04], [0x10, 0x07])"
proof -
  have h1: "\<not> has_end_pair ([0x02, 0, 0, 0, 5, 0, 3] @ [0x04])"
    by (simp add: EOM_def EOM2_def)
  have h2: "concat [[0x10, 0x02], [], [0, 0, 0, 5, 0], [3, 0x04, 0x10], [0x11]] = frame_of [0x02, 0, 0, 0, 5, 0, 3] 0x04"
    by (simp add: frame_of_eq)
  from h1 h2 fragmented_frame_emitted_once[OF h1 h2, of "[0x10, 0x07]"]
  show ?thesis by blast
qed

text \<open>
  Claim C3 as stated fails twice. The frame that \<open>buildConnectCommand\<close> builds for
  source 2053 and destination 2065 holds the pair EOM, EOM2 in its payload: delivered
  whole it gives one response, its first six bytes; delivered in two chunks it gives two
  responses. And two complete frames arriving in one chunk give one response: the
  second frame stays in the buffer.
\<close>

theorem processResponse_counterexample: "frame_of [0x02, 0, 0, 0x10, 0x11, 0x10, 5] 0x16 = buildConnectCommand (new_SWP08Client ''router'' 2000) 2053 2065
  \<and> swp08_deliver [] [frame_of [0x02, 0, 0, 0x10, 0x11, 0x10, 5] 0x16] = ([[0x10, 0x02, 0, 0, 0x10, 0x11]], [0x10, 5, 0x16, 0x10, 0x11])
  \<and> swp08_deliver [] [[0x10, 0x02, 0, 0, 0x10, 0x11], [0x10, 5, 0x16, 0x10, 0x11]] = ([[0x10, 0x02, 0, 0, 0x10, 0x11], [0x10, 5, 0x16, 0x10, 0x11]], [])
  \<and> [0x10, 0x02, 0, 0, 0x10, 0x11] @ [0x10, 5, 0x16, 0x10, 0x11] = frame_of [0x02, 0, 0, 0x10, 0x11, 0x10, 5] 0x16
  \<and> swp08_on_data [] (frame_of [0x02, 0, 0, 0, 1, 0, 2] 0x01 @ frame_of [0x02, 0, 0, 0, 3, 0, 4] 0x05)
      = ([frame_of [0x02, 0, 0, 0, 1, 0, 2] 0x01], frame_of [0x02, 0, 0, 0, 3, 0, 4] 0x05)"
  by (simp add: frame_of_def Buffer_from_def SOM_def EOM_def EOM2_def buildConnectCommand_def
      new_SWP08Client_def connect_data_def checksum_of_def COMMAND_CONNECT_def destMsb_def destLsb_def
      srcMsb_def srcLsb_def js_and_def js_shr_def js_xor_def ToInt32_def
      swp08_on_data_def processResponse_def find_end.simps subarray_def)

section \<open>Properties of the line framing\<close>

lemma split_crlf_ne: "split_crlf s \<noteq> []"
  by (induction s rule: split_crlf.induct) (auto simp add: Let_def)

lemma split_crlf_sep:
  "\<not> has_crlf s \<Longrightarrow> split_crlf (s @ CR # LF # t) = s # split_crlf t"
  by (induction s rule: split_crlf.induct) (auto simp add: Let_def CR_def LF_def)

lemma split_crlf_single: "\<not> has_crlf s \<Longrightarrow> split_crlf s = [s]"
  by (induction s rule: split_crlf.induct) (auto simp add: Let_def)

lemma split_crlf_segments:
  assumes "\<forall>s \<in> set segs. \<not> has_crlf s" "\<not> has_crlf rest"
  shows "split_crlf (concat (map (\<lambda>s. s @ CRLF) segs) @ rest) = segs @ [rest]"
  using assms
  by (induction segs) (simp_all add: split_crlf_single split_crlf_sep CRLF_def)

lemma emit_lines_eq: "emit_lines lines = map trim (filter (\<lambda>l. trim l \<noteq> []) lines)"
  by (induction lines) auto

text \<open>
  The body of the data handler, when it runs on a chunk, and buffer and chunk together
  are the segments \<open>segs\<close>, each followed by CR LF, and a partial segment \<open>rest\<close>:
  every segment with a character that is not white space is emitted, trimmed, in arrival
  order; empty and blank segments are dropped; \<open>rest\<close> stays in the buffer.
\<close>

lemma on_data_segments:
  assumes "\<forall>s \<in> set segs. \<not> has_crlf s" and "\<not> has_crlf rest"
      and "buf @ data = concat (map (\<lambda>s. s @ CRLF) segs) @ rest"
  shows "rosstalk_on_data buf data = (map trim (filter (\<lambda>s. trim s \<noteq> []) segs), rest)"
  by (simp add: rosstalk_on_data_def assms(3) split_crlf_segments[OF assms(1,2)] emit_lines_eq)

lemma on_data_blank_segments:
  "rosstalk_on_data [] ('' OK '' @ CRLF @ CRLF) = ([''OK''], [])"
  by (simp add: rosstalk_on_data_def CRLF_def CR_def LF_def trim_def js_white_space_def)

text \<open>
  Once \<open>connect()\<close> has returned, no handler is left on the socket, whatever the outcome
  was, and the \<open>data\<close> events of the socket reach nothing.
\<close>

lemma connect_not_listening:
  "\<not> rt_listening c \<Longrightarrow> \<not> rt_listening (snd (rosstalk_connect c outcome))"
  by (simp add: rosstalk_connect_def rosstalk_cleanup_def Let_def split: connect_outcome.splits)

lemma receive_not_listening:
  "\<not> rt_listening c \<Longrightarrow> rosstalk_receive c chunks = ([], c)"
  by (induction chunks) (simp_all add: rosstalk_socket_data_def)

lemma sendCommand_not_listening:
  "\<not> rt_listening c \<Longrightarrow> \<not> rt_listening (snd (rosstalk_sendCommand c env))"
  using connect_not_listening[of c "line_connecting env"]
  by (auto simp add: rosstalk_sendCommand_def receive_not_listening
           split: prod.splits option.splits list.splits)

lemma sendCommand_fails:
  "\<not> rt_listening c \<Longrightarrow> \<exists>e. fst (rosstalk_sendCommand c env) = Inl e"
  using connect_not_listening[of c "line_connecting env"]
  by (auto simp add: rosstalk_sendCommand_def receive_not_listening
           split: prod.splits option.splits list.splits)

lemma sendTake_fails:
  "\<not> rt_listening c \<Longrightarrow> \<not> success (fst (rosstalk_sendTake c t env))"
  using sendCommand_fails[of c env]
  by (auto simp add: rosstalk_sendTake_def split: sum.splits prod.splits)

lemma sendTake_not_listening:
  "\<not> rt_listening c \<Longrightarrow> \<not> rt_listening (snd (rosstalk_sendTake c t env))"
  using sendCommand_not_listening[of c env]
  by (auto simp add: rosstalk_sendTake_def split: sum.splits prod.splits)

text \<open>
  Claim C9 does not hold of the code. \<open>connect()\<close> registers the data handler and then,
  on the socket's \<open>connect\<close> event, removes every handler of the socket, the data handler
  among them. So on a link that connects and takes the write, whatever chunks arrive
  (for instance the complete line \<open>OK\<close>), no response event is emitted, the buffer stays
  empty, and \<open>sendCommand\<close> is rejected with \<open>Command timeout\<close> instead of returning
  the line. The client stays connected, so that a later \<open>sendCommand\<close> on it does not
  register the handlers again and fails the same way.
\<close>

theorem sendCommand_times_out_on_live_link:
  "rosstalk_connect (new_RossTalkClient h p) Connects
     = (None, (new_RossTalkClient h p)\<lparr>rt_connected := True\<rparr>)
   \<and> rosstalk_receive ((new_RossTalkClient h p)\<lparr>rt_connected := True\<rparr>) chunks
     = ([], (new_RossTalkClient h p)\<lparr>rt_connected := True\<rparr>)
   \<and> rosstalk_sendCommand (new_RossTalkClient h p)
        \<lparr>line_connecting = Connects, line_write_error = None, arrivals = chunks\<rparr>
     = (Inl (Error ''Command timeout''), (new_RossTalkClient h p)\<lparr>rt_connected := True\<rparr>)
   \<and> rosstalk_sendCommand ((new_RossTalkClient h p)\<lparr>rt_connected := True\<rparr>)
        \<lparr>line_connecting = outcome, line_write_error = None, arrivals = chunks\<rparr>
     = (Inl (Error ''Command timeout''), (new_RossTalkClient h p)\<lparr>rt_connected := True\<rparr>)
   \<and> fst (rosstalk_sendCommand (new_RossTalkClient ''gfx'' 7788)
            \<lparr>line_connecting = Connects, line_write_error = None,
             arrivals = [''OK'' @ CRLF]\<rparr>) = Inl (Error ''Command timeout'')
   \<and> rosstalk_on_data [] (''OK'' @ CRLF) = ([''OK''], [])"
proof -
  have off: "\<not> rt_listening ((new_RossTalkClient a b)\<lparr>rt_connected := True\<rparr>)" for a b
    by (simp add: new_RossTalkClient_def)
  have c: "rosstalk_connect (new_RossTalkClient a b) Connects
           = (None, (new_RossTalkClient a b)\<lparr>rt_connected := True\<rparr>)" for a b
    by (simp add: rosstalk_connect_def rosstalk_cleanup_def new_RossTalkClient_def)
  have again: "rosstalk_connect ((new_RossTalkClient h p)\<lparr>rt_connected := True\<rparr>) outcome
               = (None, (new_RossTalkClient h p)\<lparr>rt_connected := True\<rparr>)"
    by (simp add: rosstalk_connect_def)
  have r: "rosstalk_receive ((new_RossTalkClient a b)\<lparr>rt_connected := True\<rparr>) xs
           = ([], (new_RossTalkClient a b)\<lparr>rt_connected := True\<rparr>)" for a b xs
    using off by (rule receive_not_listening)
  have s: "rosstalk_sendCommand (new_RossTalkClient a b)
             \<lparr>line_connecting = Connects, line_write_error = None, arrivals = xs\<rparr>
           = (Inl (Error ''Command timeout''), (new_RossTalkClient a b)\<lparr>rt_connected := True\<rparr>)"
    for a b xs
    by (simp add: rosstalk_sendCommand_def c r)
  have s2: "rosstalk_sendCommand ((new_RossTalkClient h p)\<lparr>rt_connected := True\<rparr>)
             \<lparr>line_connecting = outcome, line_write_error = None, arrivals = chunks\<rparr>
           = (Inl (Error ''Command timeout''), (new_RossTalkClient h p)\<lparr>rt_connected := True\<rparr>)"
    by (simp add: rosstalk_sendCommand_def again r)
  have d: "rosstalk_on_data [] (''OK'' @ CRLF) = ([''OK''], [])"
    by (simp add: rosstalk_on_data_def CRLF_def CR_def LF_def trim_def js_white_space_def)
  have s3: "fst (rosstalk_sendCommand (new_RossTalkClient ''gfx'' 7788)
            \<lparr>line_connecting = Connects, line_write_error = None,
             arrivals = [''OK'' @ CRLF]\<rparr>) = Inl (Error ''Command timeout'')"
    by (simp only: s fst_conv)
  show ?thesis
    by (intro conjI) (rule c r s s2 s3 d)+
qed

section \<open>Properties of the pools\<close>

lemma pool_wf_ref: "pool_wf pool \<Longrightarrow> map_of (clients pool) d = Some r \<Longrightarrow> r < length (objects pool)"
  by (auto simp add: pool_wf_def list_all_iff dest: map_of_SomeD)

lemma set_update_subset: "set (AList.update k v al) \<subseteq> insert (k, v) (set al)"
  by (induction al) auto

lemma set_delete_subset: "set (AList.delete k al) \<subseteq> set al"
  by (auto simp add: AList.delete_eq)

lemma getClient_registered:
  "map_of (clients pool) d = Some r \<Longrightarrow> pool_getClient new pool d h p = (r, pool)"
  by (simp add: pool_getClient_def)

lemma getClient_wf: "pool_wf pool \<Longrightarrow> pool_wf (snd (pool_getClient new pool d h p))"
  using set_update_subset[of d "length (objects pool)" "clients pool"]
  by (fastforce simp add: pool_getClient_def pool_wf_def list_all_iff Let_def less_Suc_eq
        split: option.splits)

lemma key_list_update:
  assumes "\<And>c. key (f c) = key c" "j < length xs"
  shows "key (xs[i := f (xs ! i)] ! j) = key (xs ! j)"
  using assms by (cases "i = j") simp_all

lemma getClient_holds:
  assumes "holds key d r v pool"
  shows "holds key d r v (snd (pool_getClient new pool d' h p))"
proof -
  have r: "r < length (objects pool)"
    using assms pool_wf_ref by (fastforce simp add: holds_def)
  show ?thesis
    using assms r getClient_wf[of pool new d' h p]
    by (auto simp add: holds_def pool_getClient_def Let_def update_conv' nth_append split: option.splits)
qed

lemma disconnect_holds:
  assumes "holds key d r v pool" "d' \<noteq> d" "\<And>c. key (disc c) = key c"
  shows "holds key d r v (pool_disconnect disc pool d')"
proof -
  have r: "r < length (objects pool)"
    using assms pool_wf_ref by (fastforce simp add: holds_def)
  show ?thesis
    using assms r set_delete_subset[of d' "clients pool"]
    by (auto simp add: holds_def pool_disconnect_def pool_wf_def list_all_iff delete_conv'
          key_list_update[of key disc, OF assms(3) r] split: option.splits)
qed

lemma closed_holds:
  assumes "holds key d r v pool" "\<And>c. key (f c) = key c"
  shows "holds key d r v (pool\<lparr>objects := (objects pool)[r' := f (objects pool ! r')]\<rparr>)"
proof -
  have r: "r < length (objects pool)"
    using assms pool_wf_ref by (fastforce simp add: holds_def)
  show ?thesis
    using assms r
    by (auto simp add: holds_def pool_wf_def key_list_update[of key f, OF assms(2) r])
qed

lemma snd_pool_call:
  "snd (pool_call pool r' m) = pool\<lparr>objects := (objects pool)[r' := snd (m (objects pool ! r'))]\<rparr>"
  by (simp add: pool_call_def split: prod.splits)

lemma pool_call_holds:
  assumes "holds key d r v pool" "\<And>c. key (snd (m c)) = key c"
  shows "holds key d r v (snd (pool_call pool r' m))"
  unfolding snd_pool_call
  using assms(1) by (rule closed_holds) (rule assms(2))

lemma pool_call_wf: "pool_wf pool \<Longrightarrow> pool_wf (snd (pool_call pool r' m))"
  by (simp add: snd_pool_call pool_wf_def)

lemma disconnect_wf: "pool_wf pool \<Longrightarrow> pool_wf (pool_disconnect disc pool d)"
  using set_delete_subset[of d "clients pool"]
  by (auto simp add: pool_disconnect_def pool_wf_def list_all_iff split: option.splits)

lemma disconnectAll_wf: "pool_wf (pool_disconnectAll disc pool)"
  by (simp add: pool_disconnectAll_def pool_wf_def)

lemma empty_pool_wf: "pool_wf empty_pool"
  by (simp add: empty_pool_def pool_wf_def)

lemma swp08_step_wf: "pool_wf pool \<Longrightarrow> pool_wf (swp08_step pool op)"
proof (cases op)
  case (SwpSocketClosed client)
  then show "pool_wf pool \<Longrightarrow> ?thesis" by (simp add: pool_wf_def)
qed (simp_all add: SWP08Pool_getClient_def SWP08Pool_route_def SWP08Pool_testConnection_def
      SWP08Pool_disconnect_def SWP08Pool_disconnectAll_def case_prod_beta
      getClient_wf pool_call_wf disconnect_wf disconnectAll_wf)

lemma swp08_run_wf: "pool_wf pool \<Longrightarrow> pool_wf (foldl swp08_step pool ops)"
  by (induction ops arbitrary: pool) (simp_all add: swp08_step_wf)

lemma swp_key_connect: "swp_key (snd (swp08_connect c outcome)) = swp_key c"
  by (simp add: swp_key_def swp08_connect_def split: connect_outcome.splits)

lemma swp_key_sendCommand: "swp_key (snd (swp08_sendCommand c env)) = swp_key c"
  using swp_key_connect[of c "connecting env"]
  by (auto simp add: swp_key_def swp08_sendCommand_def
        split: option.splits list.splits prod.splits if_splits)

lemma swp_key_route: "swp_key (snd (swp08_route c s t env)) = swp_key c"
  using swp_key_sendCommand[of c env]
  by (auto simp add: swp08_route_def Let_def split: sum.splits prod.splits)

lemma swp_key_testConnection: "swp_key (snd (swp08_testConnection c err)) = swp_key c"
  using swp_key_connect[of c err]
  by (auto simp add: swp08_testConnection_def split: option.splits prod.splits)

lemma swp08_step_holds:
  assumes "holds swp_key d r v pool" "\<not> swp08_evicts d op"
  shows "holds swp_key d r v (swp08_step pool op)"
proof (cases op)
  case (SwpGetClient d' h p)
  then show ?thesis
    using assms(1) by (simp add: SWP08Pool_getClient_def getClient_holds)
next
  case (SwpRoute d' h p s t env)
  then show ?thesis
    using assms(1)
    by (simp add: SWP08Pool_route_def SWP08Pool_getClient_def case_prod_beta
          pool_call_holds getClient_holds swp_key_route)
next
  case (SwpTestConnection d' h p err)
  then show ?thesis
    using assms(1)
    by (simp add: SWP08Pool_testConnection_def SWP08Pool_getClient_def case_prod_beta
          pool_call_holds getClient_holds swp_key_testConnection)
next
  case (SwpGetStatus d')
  then show ?thesis using assms(1) by simp
next
  case (SwpDisconnect d')
  then show ?thesis
    using assms by (simp add: SWP08Pool_disconnect_def disconnect_holds swp_key_def swp08_disconnect_def)
next
  case SwpDisconnectAll
  then show ?thesis using assms(2) by simp
next
  case (SwpSocketClosed client)
  then show ?thesis
    using closed_holds[OF assms(1), of "\<lambda>c. c\<lparr>swp_connected := False\<rparr>" client]
    by (simp add: swp_key_def)
qed

lemma swp08_run_holds:
  "holds swp_key d r v pool \<Longrightarrow> \<forall>op \<in> set ops. \<not> swp08_evicts d op
   \<Longrightarrow> holds swp_key d r v (foldl swp08_step pool ops)"
  by (induction ops arbitrary: pool) (simp_all add: swp08_step_holds)

lemma getClient_result:
  assumes "pool_wf pool"
  shows "holds key d (fst (pool_getClient new pool d h p))
           (key (objects (snd (pool_getClient new pool d h p)) ! fst (pool_getClient new pool d h p)))
           (snd (pool_getClient new pool d h p))"
  using getClient_wf[OF assms, of new d h p]
  by (auto simp add: holds_def pool_getClient_def Let_def update_conv' split: option.splits)

lemma getClient_new_ref:
  "map_of (clients pool) d = None \<Longrightarrow> fst (pool_getClient new pool d h p) = length (objects pool)"
  by (simp add: pool_getClient_def Let_def)

lemma getClient_new_obj:
  "map_of (clients pool) d = None \<Longrightarrow>
   objects (snd (pool_getClient new pool d h p)) ! fst (pool_getClient new pool d h p) = new h p"
  by (simp add: pool_getClient_def Let_def)

lemma disconnect_unregisters:
  "map_of (clients (pool_disconnect disc pool d)) d = None"
  by (auto simp add: pool_disconnect_def delete_conv' split: option.splits)

lemma disconnect_length:
  "length (objects (pool_disconnect disc pool d)) = length (objects pool)"
  by (auto simp add: pool_disconnect_def split: option.splits)

lemma rosstalk_step_wf: "pool_wf pool \<Longrightarrow> pool_wf (rosstalk_step pool op)"
proof (cases op)
  case (RtSocketClosed client)
  then show "pool_wf pool \<Longrightarrow> ?thesis" by (simp add: pool_wf_def)
qed (simp_all add: RossTalkPool_getClient_def RossTalkPool_sendTake_def
      RossTalkPool_testConnection_def RossTalkPool_disconnect_def RossTalkPool_disconnectAll_def
      case_prod_beta getClient_wf pool_call_wf disconnect_wf disconnectAll_wf)

lemma rosstalk_run_wf: "pool_wf pool \<Longrightarrow> pool_wf (foldl rosstalk_step pool ops)"
  by (induction ops arbitrary: pool) (simp_all add: rosstalk_step_wf)

lemma rt_key_connect: "rt_key (snd (rosstalk_connect c outcome)) = rt_key c"
  by (simp add: rt_key_def rosstalk_connect_def rosstalk_cleanup_def Let_def
        split: connect_outcome.splits)

lemma rt_key_socket_data: "rt_key (snd (rosstalk_socket_data c data)) = rt_key c"
  by (simp add: rt_key_def rosstalk_socket_data_def split: prod.splits)

lemma rt_key_receive: "rt_key (snd (rosstalk_receive c chunks)) = rt_key c"
proof (induction chunks arbitrary: c)
  case Nil
  show ?case by simp
next
  case (Cons chunk chunks)
  show ?case
    using Cons[of "snd (rosstalk_socket_data c chunk)"] rt_key_socket_data[of c chunk]
    by (simp add: case_prod_beta)
qed

lemma rt_key_sendCommand: "rt_key (snd (rosstalk_sendCommand c env)) = rt_key c"
  using rt_key_connect[of c "line_connecting env"]
        rt_key_receive[of "snd (rosstalk_connect c (line_connecting env))" "arrivals env"]
  by (auto simp add: rosstalk_sendCommand_def split: option.splits list.splits prod.splits)

lemma rt_key_sendTake: "rt_key (snd (rosstalk_sendTake c t env)) = rt_key c"
  using rt_key_sendCommand[of c env]
  by (auto simp add: rosstalk_sendTake_def split: sum.splits prod.splits)

lemma rt_key_testConnection: "rt_key (snd (rosstalk_testConnection c err)) = rt_key c"
  using rt_key_connect[of c err]
  by (auto simp add: rosstalk_testConnection_def split: option.splits prod.splits)

lemma rosstalk_step_holds:
  assumes "holds rt_key d r v pool" "\<not> rosstalk_evicts d op"
  shows "holds rt_key d r v (rosstalk_step pool op)"
proof (cases op)
  case (RtGetClient d' h p)
  then show ?thesis
    using assms(1) by (simp add: RossTalkPool_getClient_def getClient_holds)
next
  case (RtSendTake d' h p t env)
  then show ?thesis
    using assms(1)
    by (simp add: RossTalkPool_sendTake_def RossTalkPool_getClient_def case_prod_beta
          pool_call_holds getClient_holds rt_key_sendTake)
next
  case (RtTestConnection d' h p err)
  then show ?thesis
    using assms(1)
    by (simp add: RossTalkPool_testConnection_def RossTalkPool_getClient_def case_prod_beta
          pool_call_holds getClient_holds rt_key_testConnection)
next
  case (RtGetStatus d')
  then show ?thesis using assms(1) by simp
next
  case (RtDisconnect d')
  then show ?thesis
    using assms
    by (simp add: RossTalkPool_disconnect_def disconnect_holds rt_key_def rosstalk_disconnect_def)
next
  case RtDisconnectAll
  then show ?thesis using assms(2) by simp
next
  case (RtSocketClosed client)
  then show ?thesis
    using closed_holds[OF assms(1), of rosstalk_socket_close client]
    by (simp add: rt_key_def rosstalk_socket_close_def)
qed

lemma rosstalk_run_holds:
  "holds rt_key d r v pool \<Longrightarrow> \<forall>op \<in> set ops. \<not> rosstalk_evicts d op
   \<Longrightarrow> holds rt_key d r v (foldl rosstalk_step pool ops)"
  by (induction ops arbitrary: pool) (simp_all add: rosstalk_step_holds)

text \<open>
  The socket handlers of the line clients of a pool: none is registered after any
  operation, if none was before.
\<close>

lemma quiet_update:
  assumes "\<forall>c \<in> set xs. \<not> rt_listening c" "\<And>c. \<not> rt_listening c \<Longrightarrow> \<not> rt_listening (f c)"
  shows "\<forall>c \<in> set (xs[i := f (xs ! i)]). \<not> rt_listening c"
proof (cases "i < length xs")
  case True
  then have "\<not> rt_listening (f (xs ! i))"
    using assms by simp
  then show ?thesis
    using assms(1) set_update_subset_insert[of xs i "f (xs ! i)"] by auto
next
  case False
  then have "xs[i := f (xs ! i)] = xs"
    by (intro list_update_beyond) arith
  then show ?thesis using assms(1) by simp
qed

lemma quiet_fold:
  assumes "\<forall>c \<in> set xs. \<not> rt_listening c" "\<And>c. \<not> rt_listening c \<Longrightarrow> \<not> rt_listening (f c)"
  shows "\<forall>c \<in> set (fold (\<lambda>client objs. objs[client := f (objs ! client)]) rs xs). \<not> rt_listening c"
  using assms(1)
proof (induction rs arbitrary: xs)
  case Nil
  then show ?case by simp
next
  case (Cons r rs)
  show ?case
    using Cons.IH[OF quiet_update[OF Cons.prems assms(2), where i = r]] by simp
qed

lemma quiet_getClient:
  "\<forall>c \<in> set (objects pool). \<not> rt_listening c
   \<Longrightarrow> \<forall>c \<in> set (objects (snd (RossTalkPool_getClient pool d h p))). \<not> rt_listening c"
  by (auto simp add: RossTalkPool_getClient_def pool_getClient_def Let_def new_RossTalkClient_def
        split: option.splits)

lemma testConnection_not_listening:
  "\<not> rt_listening c \<Longrightarrow> \<not> rt_listening (snd (rosstalk_testConnection c outcome))"
  using connect_not_listening[of c outcome]
  by (auto simp add: rosstalk_testConnection_def split: option.splits prod.splits)

lemma quiet_step:
  assumes "\<forall>c \<in> set (objects pool). \<not> rt_listening c"
  shows "\<forall>c \<in> set (objects (rosstalk_step pool op)). \<not> rt_listening c"
proof (cases op)
  case (RtGetClient d h p)
  then show ?thesis using quiet_getClient[OF assms] by simp
next
  case (RtSendTake d h p t env)
  let ?g = "RossTalkPool_getClient pool d h p"
  have q: "\<forall>c \<in> set (objects (snd ?g)). \<not> rt_listening c"
    using assms by (rule quiet_getClient)
  have k: "\<not> rt_listening c \<Longrightarrow> \<not> rt_listening (snd (rosstalk_sendTake c t env))" for c
    by (rule sendTake_not_listening)
  note u = quiet_update[OF q k, where i = "fst ?g"]
  show ?thesis
    unfolding RtSendTake rosstalk_step.simps RossTalkPool_sendTake_def case_prod_beta Let_def
      snd_pool_call
    using u by simp
next
  case (RtTestConnection d h p outcome)
  let ?g = "RossTalkPool_getClient pool d h p"
  have q: "\<forall>c \<in> set (objects (snd ?g)). \<not> rt_listening c"
    using assms by (rule quiet_getClient)
  have k: "\<not> rt_listening c \<Longrightarrow> \<not> rt_listening (snd (rosstalk_testConnection c outcome))"
    for c
    by (rule testConnection_not_listening)
  note u = quiet_update[OF q k, where i = "fst ?g"]
  show ?thesis
    unfolding RtTestConnection rosstalk_step.simps RossTalkPool_testConnection_def
      case_prod_beta Let_def snd_pool_call
    using u by simp
next
  case (RtGetStatus d)
  then show ?thesis using assms by simp
next
  case (RtDisconnect d)
  have k: "\<not> rt_listening (rosstalk_disconnect c)" for c
    by (simp add: rosstalk_disconnect_def)
  show ?thesis
  proof (cases "map_of (clients pool) d")
    case None
    then show ?thesis
      using assms by (simp add: RtDisconnect RossTalkPool_disconnect_def pool_disconnect_def)
  next
    case (Some r)
    then show ?thesis
      using quiet_update[OF assms k, where i = r]
      by (simp add: RtDisconnect RossTalkPool_disconnect_def pool_disconnect_def)
  qed
next
  case RtDisconnectAll
  have k: "\<not> rt_listening (rosstalk_disconnect c)" for c
    by (simp add: rosstalk_disconnect_def)
  show ?thesis
    using quiet_fold[OF assms k]
    by (simp add: RtDisconnectAll RossTalkPool_disconnectAll_def pool_disconnectAll_def)
next
  case (RtSocketClosed client)
  have k: "\<not> rt_listening c \<Longrightarrow> \<not> rt_listening (rosstalk_socket_close c)" for c
    by (simp add: rosstalk_socket_close_def)
  show ?thesis
    using quiet_update[OF assms k, where i = client]
    by (simp add: RtSocketClosed)
qed

lemma quiet_run:
  "\<forall>c \<in> set (objects pool). \<not> rt_listening c
   \<Longrightarrow> \<forall>c \<in> set (objects (foldl rosstalk_step pool ops)). \<not> rt_listening c"
proof (induction ops arbitrary: pool)
  case Nil
  then show ?case by simp
next
  case (Cons op ops)
  show ?case
    using Cons.IH[OF quiet_step[OF Cons.prems]] by simp
qed

text \<open>
  In a pool reached from the empty pool by any operations, no client has a handler on
  its socket, connected or not; so no \<open>sendTake\<close> of the pool ever reports success,
  whatever the device answers.
\<close>

lemma sendTake_never_succeeds:
  "\<not> success (fst (RossTalkPool_sendTake (foldl rosstalk_step empty_pool ops) d h p t env))"
proof -
  let ?pool = "foldl rosstalk_step empty_pool ops"
  let ?g = "RossTalkPool_getClient ?pool d h p"
  have wf: "pool_wf ?pool"
    by (rule rosstalk_run_wf) (rule empty_pool_wf)
  have q: "\<forall>c \<in> set (objects ?pool). \<not> rt_listening c"
    by (rule quiet_run) (simp add: empty_pool_def)
  have q': "\<forall>c \<in> set (objects (snd ?g)). \<not> rt_listening c"
    using q by (rule quiet_getClient)
  have "holds rt_key d (fst ?g) (rt_key (objects (snd ?g) ! fst ?g)) (snd ?g)"
    unfolding RossTalkPool_getClient_def by (rule getClient_result[OF wf])
  then have "fst ?g < length (objects (snd ?g))"
    by (auto simp add: holds_def dest: pool_wf_ref)
  then have "\<not> rt_listening (objects (snd ?g) ! fst ?g)"
    using q' by simp
  then have "\<not> success (fst (rosstalk_sendTake (objects (snd ?g) ! fst ?g) t env))"
    by (rule sendTake_fails)
  then show ?thesis
    by (simp add: RossTalkPool_sendTake_def case_prod_beta pool_call_def)
qed

lemma pool_registered_client:
  fixes key :: "'c \<Rightarrow> string \<times> int"
  assumes wf: "pool_wf pool0"
      and run: "\<And>r v. holds key d r v (snd (pool_getClient new pool0 d h p)) \<Longrightarrow> holds key d r v pool2"
      and new: "\<And>a b. key (new a b) = (a, b)"
  shows "pool_getClient new pool2 d h' p' = (fst (pool_getClient new pool0 d h p), pool2)
    \<and> key (objects pool2 ! fst (pool_getClient new pool0 d h p))
         = key (objects (snd (pool_getClient new pool0 d h p)) ! fst (pool_getClient new pool0 d h p))
    \<and> (map_of (clients pool0) d = None \<longrightarrow>
         key (objects pool2 ! fst (pool_getClient new pool0 d h p)) = (h, p))
    \<and> fst (pool_getClient new (pool_disconnect disc pool2 d) d h' p')
         \<noteq> fst (pool_getClient new pool0 d h p)
    \<and> key (objects (snd (pool_getClient new (pool_disconnect disc pool2 d) d h' p'))
              ! fst (pool_getClient new (pool_disconnect disc pool2 d) d h' p')) = (h', p')"
proof -
  let ?g = "pool_getClient new pool0 d h p"
  let ?v = "key (objects (snd ?g) ! fst ?g)"
  have h2: "holds key d (fst ?g) ?v pool2"
    using run getClient_result[OF wf] by blast
  then have reg: "map_of (clients pool2) d = Some (fst ?g)" and k: "key (objects pool2 ! fst ?g) = ?v"
    and wf2: "pool_wf pool2"
    by (simp_all add: holds_def)
  have a: "pool_getClient new pool2 d h' p' = (fst ?g, pool2)"
    using reg by (rule getClient_registered)
  have c: "key (objects pool2 ! fst ?g) = (h, p)" if "map_of (clients pool0) d = None"
    using k new[of h p] by (simp only: getClient_new_obj[OF that])
  let ?p3 = "pool_disconnect disc pool2 d"
  have un: "map_of (clients ?p3) d = None"
    by (rule disconnect_unregisters)
  have lt: "fst ?g < length (objects pool2)"
    using wf2 reg by (rule pool_wf_ref)
  have e: "fst (pool_getClient new ?p3 d h' p') \<noteq> fst ?g"
    using lt by (simp add: getClient_new_ref[OF un] disconnect_length)
  have f: "key (objects (snd (pool_getClient new ?p3 d h' p')) ! fst (pool_getClient new ?p3 d h' p')) = (h', p')"
    by (simp only: getClient_new_obj[OF un] new)
  show ?thesis
    using a k c e f by blast
qed

text \<open>
  Claim C10. In both pools, reached from the empty pool by any operations: after
  \<open>getClient(d, h, p)\<close>, and after any further operations that do not evict \<open>d\<close>
  (\<open>disconnect(d)\<close>, \<open>disconnectAll()\<close>), \<open>getClient(d, h', p')\<close> returns the same
  client and leaves the pool as it is; the client's host and port are unchanged, and
  are \<open>h\<close> and \<open>p\<close> if the first call constructed it. After \<open>disconnect(d)\<close> the
  next \<open>getClient(d, h', p')\<close> constructs another client, for \<open>h'\<close> and \<open>p'\<close>.
\<close>

theorem getClient_returns_registered_client:
  assumes "\<forall>op \<in> set sops. \<not> swp08_evicts d op" and "\<forall>op \<in> set rops. \<not> rosstalk_evicts d op"
  shows
    "(let pool0 = foldl swp08_step empty_pool before;
          client = fst (SWP08Pool_getClient pool0 d h p);
          pool1 = snd (SWP08Pool_getClient pool0 d h p);
          pool2 = foldl swp08_step pool1 sops;
          again = SWP08Pool_getClient (SWP08Pool_disconnect pool2 d) d h' p'
      in SWP08Pool_getClient pool2 d h' p' = (client, pool2)
         \<and> swp_host (objects pool2 ! client) = swp_host (objects pool1 ! client)
         \<and> swp_port (objects pool2 ! client) = swp_port (objects pool1 ! client)
         \<and> (map_of (clients pool0) d = None \<longrightarrow>
              swp_host (objects pool2 ! client) = h \<and> swp_port (objects pool2 ! client) = p)
         \<and> fst again \<noteq> client
         \<and> swp_host (objects (snd again) ! fst again) = h'
         \<and> swp_port (objects (snd again) ! fst again) = p')
     \<and>
     (let pool0 = foldl rosstalk_step empty_pool before';
          client = fst (RossTalkPool_getClient pool0 d h p);
          pool1 = snd (RossTalkPool_getClient pool0 d h p);
          pool2 = foldl rosstalk_step pool1 rops;
          again = RossTalkPool_getClient (RossTalkPool_disconnect pool2 d) d h' p'
      in RossTalkPool_getClient pool2 d h' p' = (client, pool2)
         \<and> rt_host (objects pool2 ! client) = rt_host (objects pool1 ! client)
         \<and> rt_port (objects pool2 ! client) = rt_port (objects pool1 ! client)
         \<and> (map_of (clients pool0) d = None \<longrightarrow>
              rt_host (objects pool2 ! client) = h \<and> rt_port (objects pool2 ! client) = p)
         \<and> fst again \<noteq> client
         \<and> rt_host (objects (snd again) ! fst again) = h'
         \<and> rt_port (objects (snd again) ! fst again) = p')"
    (is "?swp \<and> ?rt")
proof -
  have swf: "pool_wf (foldl swp08_step empty_pool before)"
    by (rule swp08_run_wf) (rule empty_pool_wf)
  have rwf: "pool_wf (foldl rosstalk_step empty_pool before')"
    by (rule rosstalk_run_wf) (rule empty_pool_wf)
  have sk: "swp_key (new_SWP08Client a b) = (a, b)" for a b
    by (simp add: swp_key_def new_SWP08Client_def)
  have rk: "rt_key (new_RossTalkClient a b) = (a, b)" for a b
    by (simp add: rt_key_def new_RossTalkClient_def)
  have srun: "holds swp_key d r v (snd (pool_getClient new_SWP08Client (foldl swp08_step empty_pool before) d h p))
      \<Longrightarrow> holds swp_key d r v (foldl swp08_step (snd (pool_getClient new_SWP08Client (foldl swp08_step empty_pool before) d h p)) sops)" for r v
    by (rule swp08_run_holds[OF _ assms(1)])
  have rrun: "holds rt_key d r v (snd (pool_getClient new_RossTalkClient (foldl rosstalk_step empty_pool before') d h p))
      \<Longrightarrow> holds rt_key d r v (foldl rosstalk_step (snd (pool_getClient new_RossTalkClient (foldl rosstalk_step empty_pool before') d h p)) rops)" for r v
    by (rule rosstalk_run_holds[OF _ assms(2)])
  note s = pool_registered_client[where key = swp_key and new = new_SWP08Client
      and disc = swp08_disconnect and h = h and p = p and h' = h' and p' = p', OF swf srun sk]
  note r = pool_registered_client[where key = rt_key and new = new_RossTalkClient
      and disc = rosstalk_disconnect and h = h and p = p and h' = h' and p' = p', OF rwf rrun rk]
  have s': ?swp
    unfolding Let_def SWP08Pool_getClient_def SWP08Pool_disconnect_def
    using s[unfolded swp_key_def prod.inject] by blast
  have r': ?rt
    unfolding Let_def RossTalkPool_getClient_def RossTalkPool_disconnect_def
    using r[unfolded rt_key_def prod.inject] by blast
  show ?thesis
    using s' r' by (rule conjI)
qed

text \<open>
  Device 1 registered at 10.0.0.5, then used with the address 10.0.0.9.
\<close>

theorem getClient_returns_registered_client_witness:
  "fst (SWP08Pool_getClient
          (foldl swp08_step (snd (SWP08Pool_getClient empty_pool 1 ''10.0.0.5'' 2000))
             [SwpRoute 1 ''10.0.0.9'' 2001 (JNum 3) (JNum 5)
                \<lparr>connecting = Connects, write_error = None, responses = []\<rparr>,
              SwpSocketClosed 0, SwpDisconnect 2])
          1 ''10.0.0.9'' 2001) = 0
   \<and> swp_host (objects
         (foldl swp08_step (snd (SWP08Pool_getClient empty_pool 1 ''10.0.0.5'' 2000))
             [SwpRoute 1 ''10.0.0.9'' 2001 (JNum 3) (JNum 5)
                \<lparr>connecting = Connects, write_error = None, responses = []\<rparr>,
              SwpSocketClosed 0, SwpDisconnect 2]) ! 0) = ''10.0.0.5''
   \<and> fst (RossTalkPool_getClient
          (foldl rosstalk_step (snd (RossTalkPool_getClient empty_pool 1 ''10.0.0.5'' 2000))
             [RtSendTake 1 ''10.0.0.9'' 7789 (JNum 7)
                \<lparr>line_connecting = ConnectTimeout, line_write_error = None,
                 arrivals = []\<rparr>,
              RtTestConnection 1 ''10.0.0.9'' 7789 Connects])
          1 ''10.0.0.9'' 2001) = 0
   \<and> rt_host (objects
         (foldl rosstalk_step (snd (RossTalkPool_getClient empty_pool 1 ''10.0.0.5'' 2000))
             [RtSendTake 1 ''10.0.0.9'' 7789 (JNum 7)
                \<lparr>line_connecting = ConnectTimeout, line_write_error = None,
                 arrivals = []\<rparr>,
              RtTestConnection 1 ''10.0.0.9'' 7789 Connects]) ! 0) = ''10.0.0.5''"
proof -
  let ?sops = "[SwpRoute 1 ''10.0.0.9'' 2001 (JNum 3) (JNum 5)
                \<lparr>connecting = Connects, write_error = None, responses = []\<rparr>,
              SwpSocketClosed 0, SwpDisconnect 2]"
  let ?rops = "[RtSendTake 1 ''10.0.0.9'' 7789 (JNum 7)
                \<lparr>line_connecting = ConnectTimeout, line_write_error = None,
                 arrivals = []\<rparr>,
              RtTestConnection 1 ''10.0.0.9'' 7789 Connects]"
  have h1: "\<forall>op \<in> set ?sops. \<not> swp08_evicts 1 op"
    by simp
  have h2: "\<forall>op \<in> set ?rops. \<not> rosstalk_evicts 1 op"
    by simp
  have e: "fst (SWP08Pool_getClient empty_pool 1 ''10.0.0.5'' 2000) = 0"
      "fst (RossTalkPool_getClient empty_pool 1 ''10.0.0.5'' 2000) = 0"
      "map_of (clients (empty_pool :: SWP08Pool)) 1 = None"
      "map_of (clients (empty_pool :: RossTalkPool)) 1 = None"
    by (simp_all add: SWP08Pool_getClient_def RossTalkPool_getClient_def pool_getClient_def
          empty_pool_def)
  note T = getClient_returns_registered_client[OF h1 h2, where before = "[]" and before' = "[]"
      and h = "''10.0.0.5''" and p = 2000 and h' = "''10.0.0.9''" and p' = 2001]
  note T' = T[unfolded Let_def foldl_Nil e(1,2)]
  have s1: "fst (SWP08Pool_getClient
          (foldl swp08_step (snd (SWP08Pool_getClient empty_pool 1 ''10.0.0.5'' 2000)) ?sops)
          1 ''10.0.0.9'' 2001) = 0"
    using T' by (metis fst_conv)
  have s2: "swp_host (objects
         (foldl swp08_step (snd (SWP08Pool_getClient empty_pool 1 ''10.0.0.5'' 2000)) ?sops) ! 0)
        = ''10.0.0.5''"
    using T' e(3) by blast
  have r1: "fst (RossTalkPool_getClient
          (foldl rosstalk_step (snd (RossTalkPool_getClient empty_pool 1 ''10.0.0.5'' 2000)) ?rops)
          1 ''10.0.0.9'' 2001) = 0"
    using T' by (metis fst_conv)
  have r2: "rt_host (objects
         (foldl rosstalk_step (snd (RossTalkPool_getClient empty_pool 1 ''10.0.0.5'' 2000)) ?rops) ! 0)
        = ''10.0.0.5''"
    using T' e(4) by blast
  from s1 s2 r1 r2 show ?thesis
    by blast
qed

section \<open>Properties of the scheduler\<close>

subsection \<open>The store and the registry\<close>

lemma find_update_first:
  assumes "\<And>x. key (f x) = key x"
  shows "find (\<lambda>s. key s = i) (update_first (\<lambda>s. key s = j) f xs)
         = (if i = j then map_option f (find (\<lambda>s. key s = i) xs) else find (\<lambda>s. key s = i) xs)"
  by (induction xs) (auto simp add: assms)

lemma sched_id_apply_patch: "sched_id (apply_patch patch r) = sched_id r"
  by (simp add: apply_patch_def)

lemma getSchedule_updateSchedule:
  "getSchedule (updateSchedule data j patch) i
   = (if i = j then map_option (apply_patch patch) (getSchedule data i) else getSchedule data i)"
  unfolding getSchedule_def updateSchedule_def
  using find_update_first[of sched_id "apply_patch patch" i j "schedules data", OF sched_id_apply_patch]
  by simp

lemma getSchedule_createLog:
  "getSchedule (snd (createLog data t sid did cmd st resp)) i = getSchedule data i"
  by (simp add: createLog_def getSchedule_def Let_def)

lemma try_send_frame:
  "try_send st w sched cd = Inr (res, cmd, st1) \<Longrightarrow>
   jobs st1 = jobs st \<and> job_objects st1 = job_objects st \<and> db st1 = db st \<and> ipc_sent st1 = ipc_sent st"
  by (auto simp add: try_send_def split: if_splits sum.splits option.splits prod.splits)

lemma record_run_frame:
  "jobs (record_run st w sched res cmd) = jobs st
   \<and> job_objects (record_run st w sched res cmd) = job_objects st"
  by (simp add: record_run_def Let_def split: prod.splits)

lemma executeCommand_frame:
  "jobs (snd (executeCommand st w sched)) = jobs st
   \<and> job_objects (snd (executeCommand st w sched)) = job_objects st"
  by (auto simp add: executeCommand_def record_run_frame split: sum.splits prod.splits dest: try_send_frame)

lemma registry_invD:
  "registry_inv st \<Longrightarrow> ref < length (job_objects st) \<Longrightarrow> pending (job_objects st ! ref) = Some t
   \<Longrightarrow> map_of (jobs st) (sched_id (job_sched (job_objects st ! ref))) = Some ref"
  by (simp add: registry_inv_def)

lemma cancelJob_inv:
  assumes "registry_inv st"
  shows "registry_inv (cancelJob st i)"
proof (cases "map_of (jobs st) i")
  case None
  then show ?thesis using assms by (simp add: cancelJob_def)
next
  case (Some job)
  show ?thesis
    unfolding registry_inv_def
  proof (intro allI impI)
    fix ref
    assume lt: "ref < length (job_objects (cancelJob st i))"
      and live: "pending (job_objects (cancelJob st i) ! ref) \<noteq> None"
    have lt': "ref < length (job_objects st)"
      using lt Some by (simp add: cancelJob_def)
    have ne: "ref \<noteq> job"
      using live lt' Some by (auto simp add: cancelJob_def Job_cancel_def)
    then have same: "job_objects (cancelJob st i) ! ref = job_objects st ! ref"
      using Some by (simp add: cancelJob_def)
    have reg: "map_of (jobs st) (sched_id (job_sched (job_objects st ! ref))) = Some ref"
      using assms lt' live same by (simp add: registry_inv_def)
    then have "sched_id (job_sched (job_objects st ! ref)) \<noteq> i"
      using Some ne by auto
    then have "map_of (jobs (cancelJob st i)) (sched_id (job_sched (job_objects st ! ref)))
               = map_of (jobs st) (sched_id (job_sched (job_objects st ! ref)))"
      using Some by (simp add: cancelJob_def delete_conv')
    then show "map_of (jobs (cancelJob st i))
                 (sched_id (job_sched (job_objects (cancelJob st i) ! ref))) = Some ref"
      using reg by (simp only: same)
  qed
qed

lemma cancelJob_unregistered: "map_of (jobs (cancelJob st i)) i = None"
  by (auto simp add: cancelJob_def delete_conv' split: option.splits)

lemma cancelJob_length: "length (job_objects (cancelJob st i)) = length (job_objects st)"
  by (auto simp add: cancelJob_def split: option.splits)

lemma cancelJob_db: "db (cancelJob st i) = db st"
  by (auto simp add: cancelJob_def split: option.splits)

lemma cancelJob_cancels:
  "map_of (jobs st) i = Some old \<Longrightarrow> old < length (job_objects st)
   \<Longrightarrow> pending (job_objects (cancelJob st i) ! old) = None"
  by (simp add: cancelJob_def Job_cancel_def)

lemma no_live_unregistered:
  assumes "registry_inv st" "map_of (jobs st) i = None" "ref < length (job_objects st)"
    "pending (job_objects st ! ref) \<noteq> None"
  shows "sched_id (job_sched (job_objects st ! ref)) \<noteq> i"
  using assms by (auto simp add: registry_inv_def)

lemma new_job_sched: "new_job w sched = Some job \<Longrightarrow> job_sched job = sched \<and> pending job \<noteq> None"
  by (auto simp add: new_job_def split: if_splits option.splits js_date.splits)

lemma scheduleJob_registry:
  "jobs (scheduleJob st w sched)
     = (case new_job w sched of
          None \<Rightarrow> jobs (cancelJob st (sched_id sched))
        | Some job \<Rightarrow> AList.update (sched_id sched) (length (job_objects st))
                        (jobs (cancelJob st (sched_id sched))))"
  "job_objects (scheduleJob st w sched)
     = (case new_job w sched of
          None \<Rightarrow> job_objects (cancelJob st (sched_id sched))
        | Some job \<Rightarrow> job_objects (cancelJob st (sched_id sched)) @ [job])"
  by (simp_all add: scheduleJob_def Let_def cancelJob_length split: option.splits)

lemma scheduleJob_inv:
  assumes "registry_inv st"
  shows "registry_inv (scheduleJob st w sched)"
proof (cases "new_job w sched")
  case None
  then show ?thesis
    using cancelJob_inv[OF assms, of "sched_id sched"]
    by (simp add: registry_inv_def scheduleJob_registry)
next
  case (Some job)
  let ?c = "cancelJob st (sched_id sched)"
  have ci: "registry_inv ?c"
    using assms by (rule cancelJob_inv)
  have len: "length (job_objects ?c) = length (job_objects st)"
    by (rule cancelJob_length)
  show ?thesis
    unfolding registry_inv_def scheduleJob_registry Some option.case
  proof (intro allI impI)
    fix ref
    assume lt: "ref < length (job_objects ?c @ [job])"
      and live: "pending ((job_objects ?c @ [job]) ! ref) \<noteq> None"
    show "map_of (AList.update (sched_id sched) (length (job_objects st)) (jobs ?c))
            (sched_id (job_sched ((job_objects ?c @ [job]) ! ref))) = Some ref"
    proof (cases "ref < length (job_objects ?c)")
      case True
      then have old: "(job_objects ?c @ [job]) ! ref = job_objects ?c ! ref"
        by (simp add: nth_append)
      have "sched_id (job_sched (job_objects ?c ! ref)) \<noteq> sched_id sched"
        using no_live_unregistered[OF ci cancelJob_unregistered True] live old by simp
      moreover have "map_of (jobs ?c) (sched_id (job_sched (job_objects ?c ! ref))) = Some ref"
        using ci True live old by (simp add: registry_inv_def)
      ultimately show ?thesis
        by (simp add: old update_conv')
    next
      case False
      then have r: "ref = length (job_objects st)"
        using lt len by simp
      then have "(job_objects ?c @ [job]) ! ref = job"
        using len by (simp add: nth_append)
      then show ?thesis
        using new_job_sched[OF Some] r by (simp add: update_conv')
    qed
  qed
qed

lemma executeCommand_inv: "registry_inv st \<Longrightarrow> registry_inv (snd (executeCommand st w sched))"
  by (simp add: registry_inv_def executeCommand_frame)

lemma db_update_inv: "registry_inv st \<Longrightarrow> registry_inv (st\<lparr>db := d\<rparr>)"
  by (simp add: registry_inv_def)

lemma pending_update_inv:
  assumes "registry_inv st" "ref < length (job_objects st)" "pending (job_objects st ! ref) \<noteq> None"
  shows "registry_inv (st\<lparr>job_objects := (job_objects st)[ref := (job_objects st ! ref)\<lparr>pending := x\<rparr>]\<rparr>)"
  unfolding registry_inv_def
proof (intro allI impI)
  fix r
  let ?st' = "st\<lparr>job_objects := (job_objects st)[ref := (job_objects st ! ref)\<lparr>pending := x\<rparr>]\<rparr>"
  assume lt: "r < length (job_objects ?st')" and live: "pending (job_objects ?st' ! r) \<noteq> None"
  show "map_of (jobs ?st') (sched_id (job_sched (job_objects ?st' ! r))) = Some r"
  proof (cases "r = ref")
    case True
    then show ?thesis
      using assms by (simp add: registry_inv_def)
  next
    case False
    then show ?thesis
      using assms(1) lt live by (simp add: registry_inv_def)
  qed
qed

lemma fire_inv:
  assumes "registry_inv st"
  shows "registry_inv (fire st w ref)"
proof (cases "ref < length (job_objects st) \<and> pending (job_objects st ! ref) \<noteq> None")
  case False
  then show ?thesis
    using assms by (auto simp add: fire_def Let_def)
next
  case True
  then obtain t where t: "pending (job_objects st ! ref) = Some t"
    by auto
  have p: "registry_inv (st\<lparr>job_objects := (job_objects st)[ref := (job_objects st ! ref)\<lparr>pending := x\<rparr>]\<rparr>)" for x
    using assms True by (simp add: pending_update_inv)
  show ?thesis
    using True t
    by (simp add: fire_def Let_def p executeCommand_inv db_update_inv)
qed

lemma fold_cancel_length:
  "length (fold (\<lambda>job objs. objs[job := Job_cancel (objs ! job)]) refs objs) = length objs"
  by (induction refs arbitrary: objs) simp_all

lemma fold_cancel_stays:
  "r < length objs \<Longrightarrow> pending (objs ! r) = None
   \<Longrightarrow> pending (fold (\<lambda>job objs. objs[job := Job_cancel (objs ! job)]) refs objs ! r) = None"
proof (induction refs arbitrary: objs)
  case Nil
  then show ?case by simp
next
  case (Cons a refs)
  have "pending (objs[a := Job_cancel (objs ! a)] ! r) = None"
    using Cons.prems by (cases "a = r") (simp_all add: Job_cancel_def)
  then show ?case
    using Cons.IH[of "objs[a := Job_cancel (objs ! a)]"] Cons.prems(1) by simp
qed

lemma fold_cancel_cancels:
  "r < length objs \<Longrightarrow> r \<in> set refs
   \<Longrightarrow> pending (fold (\<lambda>job objs. objs[job := Job_cancel (objs ! job)]) refs objs ! r) = None"
proof (induction refs arbitrary: objs)
  case Nil
  then show ?case by simp
next
  case (Cons a refs)
  show ?case
  proof (cases "a = r")
    case True
    then have "pending (objs[a := Job_cancel (objs ! a)] ! r) = None"
      using Cons.prems(1) by (simp add: Job_cancel_def)
    then show ?thesis
      using fold_cancel_stays[of r "objs[a := Job_cancel (objs ! a)]" refs] Cons.prems(1) by simp
  next
    case False
    then show ?thesis
      using Cons.IH[of "objs[a := Job_cancel (objs ! a)]"] Cons.prems by simp
  qed
qed

lemma stopAll_no_timer:
  assumes "registry_inv st" "ref < length (job_objects st)"
  shows "pending (job_objects (stopAll st) ! ref) = None"
proof (cases "pending (job_objects st ! ref)")
  case None
  then show ?thesis
    using assms(2) by (simp add: stopAll_def fold_cancel_stays)
next
  case (Some t)
  then have "map_of (jobs st) (sched_id (job_sched (job_objects st ! ref))) = Some ref"
    using assms by (simp add: registry_inv_def)
  then have "ref \<in> set (map snd (jobs st))"
    by (metis map_of_SomeD set_zip_rightD zip_map_fst_snd)
  then show ?thesis
    using assms(2) by (simp add: stopAll_def fold_cancel_cancels)
qed

lemma stopAll_inv: "registry_inv st \<Longrightarrow> registry_inv (stopAll st)"
  unfolding registry_inv_def
proof (intro allI impI)
  fix ref
  assume inv: "\<forall>ref<length (job_objects st). pending (job_objects st ! ref) \<noteq> None \<longrightarrow>
           map_of (jobs st) (sched_id (job_sched (job_objects st ! ref))) = Some ref"
    and lt: "ref < length (job_objects (stopAll st))"
    and live: "pending (job_objects (stopAll st) ! ref) \<noteq> None"
  have "ref < length (job_objects st)"
    using lt by (simp add: stopAll_def fold_cancel_length)
  then have "pending (job_objects (stopAll st) ! ref) = None"
    using inv stopAll_no_timer[of st ref] by (simp add: registry_inv_def)
  with live show "map_of (jobs (stopAll st)) (sched_id (job_sched (job_objects (stopAll st) ! ref))) = Some ref"
    by simp
qed

lemma loadSchedules_inv: "registry_inv st \<Longrightarrow> registry_inv (loadSchedules st w)"
proof -
  have "registry_inv s \<Longrightarrow> registry_inv (fold (\<lambda>sched st'. scheduleJob st' w sched) xs s)" for xs s
    by (induction xs arbitrary: s) (simp_all add: scheduleJob_inv)
  then show "registry_inv st \<Longrightarrow> ?thesis"
    by (simp add: loadSchedules_def)
qed

lemma addSchedule_inv: "registry_inv st \<Longrightarrow> registry_inv (addSchedule st w i)"
  by (simp add: addSchedule_def scheduleJob_inv split: option.splits)

lemma runNow_state:
  "snd (runNow st w i)
   = (case getSchedule (db st) i of
        None \<Rightarrow> st
      | Some sched \<Rightarrow>
          (case getDevice (db st) (device_id sched) of
             None \<Rightarrow> st
           | Some device \<Rightarrow> snd (executeCommand st w (with_device sched device))))"
  by (simp add: runNow_def split: option.splits prod.splits)

lemma runNow_inv: "registry_inv st \<Longrightarrow> registry_inv (snd (runNow st w i))"
  by (simp add: runNow_state executeCommand_inv split: option.splits)

lemma scheduler_step_inv: "registry_inv st \<Longrightarrow> registry_inv (scheduler_step st op)"
  by (cases op)
    (simp_all add: loadSchedules_inv scheduleJob_inv addSchedule_inv updateSchedule_job_def
      enableSchedule_def disableSchedule_def cancelJob_inv runNow_inv fire_inv stopAll_inv
      db_update_inv)

lemma new_Scheduler_inv: "registry_inv (new_Scheduler data)"
  by (simp add: registry_inv_def new_Scheduler_def)

lemma reachable_inv: "registry_inv (foldl scheduler_step (new_Scheduler data) ops)"
proof -
  have "registry_inv s \<Longrightarrow> registry_inv (foldl scheduler_step s ops)" for s
    by (induction ops arbitrary: s) (simp_all add: scheduler_step_inv)
  then show ?thesis
    using new_Scheduler_inv by blast
qed

lemma live_jobs_registered:
  "registry_inv st \<Longrightarrow> ref \<in> set (live_jobs st i) \<Longrightarrow> map_of (jobs st) i = Some ref"
  by (auto simp add: live_jobs_def registry_inv_def)

lemma live_jobs_le_1:
  assumes "registry_inv st"
  shows "length (live_jobs st i) \<le> 1"
proof -
  have d: "distinct (live_jobs st i)"
    by (simp add: live_jobs_def)
  have "card (set (live_jobs st i)) \<le> 1"
  proof (cases "map_of (jobs st) i")
    case None
    then have "set (live_jobs st i) = {}"
      using live_jobs_registered[OF assms, of _ i] by fastforce
    then show ?thesis by simp
  next
    case (Some r)
    then have "set (live_jobs st i) \<subseteq> {r}"
      using live_jobs_registered[OF assms, of _ i] by fastforce
    then have "card (set (live_jobs st i)) \<le> card {r}"
      by (intro card_mono) simp_all
    then show ?thesis by simp
  qed
  then show ?thesis
    using d by (simp add: distinct_card)
qed

lemma refs_validD:
  "refs_valid st \<Longrightarrow> map_of (jobs st) k = Some r \<Longrightarrow> r < length (job_objects st)"
  by (auto simp add: refs_valid_def list_all_iff dest: map_of_SomeD)

lemma cancelJob_valid: "refs_valid st \<Longrightarrow> refs_valid (cancelJob st i)"
  using set_delete_subset[of i "jobs st"]
  by (auto simp add: refs_valid_def cancelJob_def distinct_delete list_all_iff
        split: option.splits)

lemma scheduleJob_valid:
  assumes "refs_valid st"
  shows "refs_valid (scheduleJob st w sched)"
proof (cases "new_job w sched")
  case None
  then show ?thesis
    using cancelJob_valid[OF assms, of "sched_id sched"]
    by (simp add: refs_valid_def scheduleJob_registry)
next
  case (Some job)
  let ?c = "cancelJob st (sched_id sched)"
  have c: "refs_valid ?c"
    using assms by (rule cancelJob_valid)
  have "r < Suc (length (job_objects ?c))"
    if "(k, r) \<in> set (AList.update (sched_id sched) (length (job_objects st)) (jobs ?c))" for k r
    using that c set_update_subset[of "sched_id sched" "length (job_objects st)" "jobs ?c"]
    by (fastforce simp add: refs_valid_def list_all_iff cancelJob_length less_Suc_eq)
  then show ?thesis
    using c Some by (auto simp add: refs_valid_def scheduleJob_registry distinct_update list_all_iff)
qed

lemma executeCommand_valid: "refs_valid st \<Longrightarrow> refs_valid (snd (executeCommand st w sched))"
  by (simp add: refs_valid_def executeCommand_frame)

lemma fire_frame:
  "jobs (fire st w ref) = jobs st \<and> length (job_objects (fire st w ref)) = length (job_objects st)"
  by (simp add: fire_def Let_def executeCommand_frame split: option.splits)

lemma fire_valid: "refs_valid st \<Longrightarrow> refs_valid (fire st w ref)"
  by (simp add: refs_valid_def fire_frame)

lemma loadSchedules_valid: "refs_valid st \<Longrightarrow> refs_valid (loadSchedules st w)"
proof -
  have "refs_valid s \<Longrightarrow> refs_valid (fold (\<lambda>sched st'. scheduleJob st' w sched) xs s)" for xs s
    by (induction xs arbitrary: s) (simp_all add: scheduleJob_valid)
  then show "refs_valid st \<Longrightarrow> ?thesis"
    by (simp add: loadSchedules_def)
qed

lemma addSchedule_valid: "refs_valid st \<Longrightarrow> refs_valid (addSchedule st w i)"
  by (simp add: addSchedule_def scheduleJob_valid split: option.splits)

lemma scheduler_step_valid: "refs_valid st \<Longrightarrow> refs_valid (scheduler_step st op)"
proof (cases op)
  case StopAll
  then show ?thesis by (simp add: refs_valid_def stopAll_def)
next
  case (StoreChange f)
  then show "refs_valid st \<Longrightarrow> ?thesis" by (simp add: refs_valid_def)
next
  case (RunNow w i)
  then show "refs_valid st \<Longrightarrow> ?thesis"
    by (simp add: runNow_state executeCommand_valid split: option.splits)
qed (simp_all add: loadSchedules_valid scheduleJob_valid addSchedule_valid updateSchedule_job_def
      enableSchedule_def disableSchedule_def cancelJob_valid fire_valid)

lemma reachable_valid: "refs_valid (foldl scheduler_step (new_Scheduler data) ops)"
proof -
  have "refs_valid s \<Longrightarrow> refs_valid (foldl scheduler_step s ops)" for s
    by (induction ops arbitrary: s) (simp_all add: scheduler_step_valid)
  moreover have "refs_valid (new_Scheduler data)"
    by (simp add: refs_valid_def new_Scheduler_def)
  ultimately show ?thesis by blast
qed

lemma distinct_keys_filter:
  "distinct (map fst al) \<Longrightarrow> length (filter (\<lambda>(k, v). k = i) al) \<le> 1"
proof (induction al)
  case Nil
  then show ?case by simp
next
  case (Cons a al)
  show ?case
  proof (cases "fst a = i")
    case True
    then have "i \<notin> fst ` set al"
      using Cons.prems by auto
    then have "\<forall>x \<in> set al. fst x \<noteq> i"
      by (metis imageI)
    then have "filter (\<lambda>(k, v). k = i) al = []"
      by (auto simp add: filter_empty_conv)
    then show ?thesis by (simp split: prod.splits)
  next
    case False
    then show ?thesis
      using Cons by (auto split: prod.splits)
  qed
qed

lemma scheduleJob_cancels_old:
  assumes "refs_valid st" "map_of (jobs st) (sched_id sched) = Some old"
  shows "pending (job_objects (scheduleJob st w sched) ! old) = None"
proof -
  have lt: "old < length (job_objects st)"
    using assms by (rule refs_validD)
  then have c: "pending (job_objects (cancelJob st (sched_id sched)) ! old) = None"
    using assms(2) by (simp add: cancelJob_cancels)
  show ?thesis
    using c lt by (simp add: scheduleJob_registry nth_append cancelJob_length split: option.splits)
qed

lemma scheduleJob_live:
  assumes "registry_inv st"
  shows "live_jobs (scheduleJob st w sched) (sched_id sched)
         = (case new_job w sched of None \<Rightarrow> [] | Some job \<Rightarrow> [length (job_objects st)])"
proof -
  let ?c = "cancelJob st (sched_id sched)"
  have ci: "registry_inv ?c"
    using assms by (rule cancelJob_inv)
  have none: "\<not> (pending (job_objects ?c ! r) \<noteq> None
                  \<and> sched_id (job_sched (job_objects ?c ! r)) = sched_id sched)"
    if "r < length (job_objects ?c)" for r
    using no_live_unregistered[OF ci cancelJob_unregistered that] by blast
  have old: "filter (\<lambda>r. pending ((job_objects ?c @ extra) ! r) \<noteq> None
                  \<and> sched_id (job_sched ((job_objects ?c @ extra) ! r)) = sched_id sched)
               [0 ..< length (job_objects ?c)] = []" for extra
    using none by (auto simp add: filter_empty_conv nth_append)
  show ?thesis
  proof (cases "new_job w sched")
    case None
    then show ?thesis
      using old[of "[]"] by (simp add: live_jobs_def scheduleJob_registry)
  next
    case (Some job)
    let ?n = "length (job_objects ?c)"
    have n: "(job_objects ?c @ [job]) ! ?n = job"
      by simp
    have "live_jobs (scheduleJob st w sched) (sched_id sched)
          = filter (\<lambda>r. pending ((job_objects ?c @ [job]) ! r) \<noteq> None
                  \<and> sched_id (job_sched ((job_objects ?c @ [job]) ! r)) = sched_id sched)
               ([0 ..< ?n] @ [?n])"
      by (simp add: live_jobs_def scheduleJob_registry Some)
    also have "\<dots> = [?n]"
      using new_job_sched[OF Some] by (simp only: filter_append old n) simp
    finally show ?thesis
      by (simp add: Some cancelJob_length)
  qed
qed

text \<open>
  Claim C6. In every state the scheduler reaches from a fresh one by any sequence of its
  operations, timer firings and changes of the store: at most one timer is alive for a
  schedule id, and the registry has at most one entry for it. \<open>scheduleJob\<close> in such a
  state cancels the job registered for the id, and afterwards the only timer alive for
  the id is the new job's, if one was installed.
\<close>

theorem at_most_one_active_job:
  "(let st = foldl scheduler_step (new_Scheduler data) ops;
        st' = scheduleJob st w sched
    in length (live_jobs st i) \<le> 1
       \<and> length (filter (\<lambda>(k, job). k = i) (jobs st)) \<le> 1
       \<and> (\<forall>old. map_of (jobs st) (sched_id sched) = Some old \<longrightarrow>
              pending (job_objects st' ! old) = None)
       \<and> live_jobs st' (sched_id sched)
           = (case new_job w sched of None \<Rightarrow> [] | Some job \<Rightarrow> [length (job_objects st)]))"
proof -
  let ?st = "foldl scheduler_step (new_Scheduler data) ops"
  have inv: "registry_inv ?st" by (rule reachable_inv)
  have val: "refs_valid ?st" by (rule reachable_valid)
  have a: "length (live_jobs ?st i) \<le> 1"
    using inv by (rule live_jobs_le_1)
  have b: "length (filter (\<lambda>(k, job). k = i) (jobs ?st)) \<le> 1"
    by (rule distinct_keys_filter) (use val in \<open>simp add: refs_valid_def\<close>)
  have c: "\<forall>old. map_of (jobs ?st) (sched_id sched) = Some old \<longrightarrow>
              pending (job_objects (scheduleJob ?st w sched) ! old) = None"
    using scheduleJob_cancels_old[OF val] by blast
  have d: "live_jobs (scheduleJob ?st w sched) (sched_id sched)
           = (case new_job w sched of None \<Rightarrow> [] | Some job \<Rightarrow> [length (job_objects ?st)])"
    using inv by (rule scheduleJob_live)
  show ?thesis
    unfolding Let_def using a b c d by blast
qed

subsection \<open>Next run and one-time schedules\<close>

lemma apply_next_run:
  "apply_patch (no_patch\<lparr>p_next_run := Some x\<rparr>) = (\<lambda>r. r\<lparr>next_run := x\<rparr>)"
  by (rule ext) (simp add: apply_patch_def no_patch_def upd_def)

lemma new_job_past:
  "schedule_type sched = ''once'' \<Longrightarrow> run_at sched = Some (Instant t) \<Longrightarrow> t \<le> now w
   \<Longrightarrow> new_job w sched = None"
  by (simp add: new_job_def)

lemma scheduleJob_db:
  "db (scheduleJob st w sched)
   = (case new_job w sched of
        None \<Rightarrow> db st
      | Some job \<Rightarrow>
          (case pending job of
             None \<Rightarrow> db st
           | Some t \<Rightarrow> updateSchedule (db st) (sched_id sched)
                        (no_patch\<lparr>p_next_run := Some (Some (Instant t))\<rparr>)))"
  by (simp add: scheduleJob_def Let_def cancelJob_db split: option.splits)

text \<open>
  Claim C8. For a one-time schedule whose \<open>run_at\<close> is not after the current time,
  \<open>scheduleJob\<close> leaves no entry in the registry for the id, creates no job and leaves
  the store as it is. Whenever the registry holds a job for the id after \<open>scheduleJob\<close>,
  it is the job just created, and the schedule's \<open>next_run\<close> in the store is that job's
  next invocation.
\<close>

theorem scheduleJob_persists_next_run:
  "(schedule_type sched = ''once'' \<and> run_at sched = Some (Instant t) \<and> t \<le> now w \<longrightarrow>
      map_of (jobs (scheduleJob st w sched)) (sched_id sched) = None
      \<and> length (job_objects (scheduleJob st w sched)) = length (job_objects st)
      \<and> db (scheduleJob st w sched) = db st)
   \<and> (\<forall>ref. map_of (jobs (scheduleJob st w sched)) (sched_id sched) = Some ref \<longrightarrow>
        ref = length (job_objects st)
        \<and> (\<exists>nextRun.
              pending (job_objects (scheduleJob st w sched) ! ref) = Some nextRun
              \<and> getSchedule (db (scheduleJob st w sched)) (sched_id sched)
                  = map_option (\<lambda>r. r\<lparr>next_run := Some (Instant nextRun)\<rparr>)
                      (getSchedule (db st) (sched_id sched))))"
proof (intro conjI impI allI)
  assume a: "schedule_type sched = ''once'' \<and> run_at sched = Some (Instant t) \<and> t \<le> now w"
  then have n: "new_job w sched = None"
    by (simp add: new_job_past)
  show "map_of (jobs (scheduleJob st w sched)) (sched_id sched) = None"
    by (simp add: scheduleJob_registry n cancelJob_unregistered)
  show "length (job_objects (scheduleJob st w sched)) = length (job_objects st)"
    by (simp add: scheduleJob_registry n cancelJob_length)
  show "db (scheduleJob st w sched) = db st"
    by (simp add: scheduleJob_db n)
next
  fix ref
  assume reg: "map_of (jobs (scheduleJob st w sched)) (sched_id sched) = Some ref"
  then obtain job where j: "new_job w sched = Some job"
    by (cases "new_job w sched") (simp_all add: scheduleJob_registry cancelJob_unregistered)
  then obtain nextRun where p: "pending job = Some nextRun"
    using new_job_sched[OF j] by auto
  show r: "ref = length (job_objects st)"
    using reg by (simp add: scheduleJob_registry j update_conv')
  have "job_objects (scheduleJob st w sched) ! ref = job"
    by (simp add: r scheduleJob_registry j nth_append cancelJob_length)
  moreover have "getSchedule (db (scheduleJob st w sched)) (sched_id sched)
                  = map_option (\<lambda>r. r\<lparr>next_run := Some (Instant nextRun)\<rparr>)
                      (getSchedule (db st) (sched_id sched))"
    by (simp add: scheduleJob_db j p getSchedule_updateSchedule apply_next_run)
  ultimately show "\<exists>nextRun.
              pending (job_objects (scheduleJob st w sched) ! ref) = Some nextRun
              \<and> getSchedule (db (scheduleJob st w sched)) (sched_id sched)
                  = map_option (\<lambda>r. r\<lparr>next_run := Some (Instant nextRun)\<rparr>)
                      (getSchedule (db st) (sched_id sched))"
    using p by blast
qed

lemma enabled_apply_patch: "p_enabled patch = None \<Longrightarrow> enabled (apply_patch patch r) = enabled r"
  by (simp add: apply_patch_def upd_def)

lemma enabled_updateSchedule:
  "p_enabled patch = None \<Longrightarrow>
   map_option enabled (getSchedule (updateSchedule data j patch) k)
   = map_option enabled (getSchedule data k)"
  by (simp add: getSchedule_updateSchedule option.map_comp comp_def enabled_apply_patch)

lemma record_run_enabled:
  "map_option enabled (getSchedule (db (record_run st w sched res cmd)) k)
   = map_option enabled (getSchedule (db st) k)"
proof -
  have p: "p_enabled (no_patch\<lparr>p_last_run := x\<rparr>) = None" "p_enabled (no_patch\<lparr>p_next_run := y\<rparr>) = None" for x y
    by (simp_all add: no_patch_def)
  obtain log data1 where c: "createLog (db st) (now w) (sched_id sched) (device_id sched) cmd
              (if success res then ''success'' else ''error'') (message res) = (log, data1)"
    by (cases "createLog (db st) (now w) (sched_id sched) (device_id sched) cmd
              (if success res then ''success'' else ''error'') (message res)")
  have d1: "getSchedule data1 k = getSchedule (db st) k"
    using getSchedule_createLog[of "db st" "now w" "sched_id sched" "device_id sched" cmd
        "if success res then ''success'' else ''error''" "message res" k] c by simp
  show ?thesis
    by (simp add: record_run_def Let_def c enabled_updateSchedule p d1 split: option.splits)
qed

lemma executeCommand_enabled:
  "map_option enabled (getSchedule (db (snd (executeCommand st w sched))) k)
   = map_option enabled (getSchedule (db st) k)"
  by (auto simp add: executeCommand_def record_run_enabled split: sum.splits prod.splits
        dest!: try_send_frame)

lemma runNow_enabled:
  "map_option enabled (getSchedule (db (snd (runNow st w i))) k)
   = map_option enabled (getSchedule (db st) k)"
  by (simp add: runNow_state executeCommand_enabled split: option.splits)

lemma new_job_once: "new_job w sched = Some job \<Longrightarrow> job_once job = (schedule_type sched = ''once'')"
  by (auto simp add: new_job_def split: if_splits option.splits js_date.splits)

lemma apply_disable: "enabled (apply_patch (no_patch\<lparr>p_enabled := Some False\<rparr>) r) = False"
  by (simp add: apply_patch_def upd_def no_patch_def)

lemma fire_once_enabled:
  assumes "ref < length (job_objects st)" "pending (job_objects st ! ref) = Some t"
    "job_once (job_objects st ! ref)"
  shows "map_option enabled (getSchedule (db (fire st w ref)) (sched_id (job_sched (job_objects st ! ref))))
         = map_option (\<lambda>r. False) (getSchedule (db st) (sched_id (job_sched (job_objects st ! ref))))"
proof -
  let ?i = "sched_id (job_sched (job_objects st ! ref))"
  let ?st1 = "st\<lparr>job_objects := (job_objects st)[ref := (job_objects st ! ref)\<lparr>pending := None\<rparr>]\<rparr>"
  let ?st2 = "snd (executeCommand ?st1 w (job_sched (job_objects st ! ref)))"
  have a: "db (fire st w ref) = updateSchedule (db ?st2) ?i (no_patch\<lparr>p_enabled := Some False\<rparr>)"
    using assms by (simp add: fire_def Let_def)
  have b: "map_option enabled (getSchedule (db ?st2) ?i) = map_option enabled (getSchedule (db st) ?i)"
    using executeCommand_enabled[of ?st1 w _ ?i] by simp
  have "map_option enabled (getSchedule (db (fire st w ref)) ?i)
        = map_option (\<lambda>r. False) (getSchedule (db ?st2) ?i)"
    by (simp add: a getSchedule_updateSchedule option.map_comp comp_def apply_disable)
  also have "\<dots> = map_option (\<lambda>r. False) (getSchedule (db st) ?i)"
    using b by (cases "getSchedule (db ?st2) ?i"; cases "getSchedule (db st) ?i") simp_all
  finally show ?thesis .
qed

text \<open>
  Claim C7, as the code has it. When the timer of a one-time job fires, the schedule of
  its callback, if the store has it, has \<open>enabled = false\<close> afterwards. \<open>runNow\<close>
  leaves \<open>enabled\<close> of every schedule as it was. The one-time callback is the callback
  of exactly the jobs created for schedules of type \<open>once\<close>.
\<close>

theorem one_time_timer_disables_schedule:
  assumes "ref < length (job_objects st)" and "pending (job_objects st ! ref) = Some t"
      and "job_once (job_objects st ! ref)"
  shows "map_option enabled (getSchedule (db (fire st w ref)) (sched_id (job_sched (job_objects st ! ref))))
         = map_option (\<lambda>r. False) (getSchedule (db st) (sched_id (job_sched (job_objects st ! ref))))
       \<and> map_option enabled (getSchedule (db (snd (runNow st w' i))) k)
         = map_option enabled (getSchedule (db st) k)
       \<and> (\<forall>job. new_job w'' sched = Some job \<longrightarrow> job_once job = (schedule_type sched = ''once''))"
  using fire_once_enabled[OF assms] runNow_enabled new_job_once by blast

subsection \<open>The execution pipeline\<close>

lemma command_data_with_device: "command_data (with_device sched device) = command_data sched"
  by (simp add: with_device_def ScheduleRecord.defs ScheduleData.defs)

lemma createLog_last:
  "last (command_log (snd (createLog data t sid did cmd st resp))) = fst (createLog data t sid did cmd st resp)
   \<and> command_log (snd (createLog data t sid did cmd st resp)) \<noteq> []"
  by (simp add: createLog_def Let_def last_drop)

lemma createLog_row:
  "fst (createLog data t sid did cmd st resp)
   = \<lparr>log_id = nextId_command_log data, schedule_id = Some sid, log_device_id = did,
      command = cmd, status = st, response = Some resp, executed_at = Instant t\<rparr>"
  by (simp add: createLog_def Let_def)

lemma createLog_rows:
  "command_log (snd (createLog data t sid did cmd st resp))
   = (let rows = command_log data @ [fst (createLog data t sid did cmd st resp)]
      in drop (length rows - 10000) rows)"
  by (simp add: createLog_def Let_def)

lemma command_log_updateSchedule: "command_log (updateSchedule data i patch) = command_log data"
  by (simp add: updateSchedule_def)

lemma record_run_log:
  "command_log (db (record_run st w sched res cmd))
   = command_log (snd (createLog (db st) (now w) (sched_id sched) (device_id sched) cmd
              (if success res then ''success'' else ''error'') (message res)))"
  by (simp add: record_run_def Let_def command_log_updateSchedule split: prod.splits option.splits)

lemma executeCommand_returns:
  assumes "command_data sched = Inr commandData"
      and "try_send st w sched commandData = Inr (result, cmd, st1)"
  shows "executeCommand st w sched = (None, record_run st1 w sched result cmd)"
  using assms by (simp add: executeCommand_def)

text \<open>
  Claim C1, as the code has it. When the schedule and its device exist and the pipeline
  returns, \<open>runNow\<close> returns \<open>{success: true, message: 'Command executed'}\<close> whatever
  the result of the command; that result is in the last row of the command log, as its
  status and response.
\<close>

theorem runNow_reports_execution_not_outcome:
  assumes "getSchedule (db st) i = Some sched"
      and "getDevice (db st) (device_id sched) = Some device"
      and "command_data sched = Inr commandData"
      and "try_send st w (with_device sched device) commandData = Inr (result, cmd, st1)"
  shows "fst (runNow st w i) = Inr \<lparr>success = True, message = ''Command executed''\<rparr>
       \<and> command_log (db (snd (runNow st w i))) \<noteq> []
       \<and> status (last (command_log (db (snd (runNow st w i)))))
           = (if success result then ''success'' else ''error'')
       \<and> response (last (command_log (db (snd (runNow st w i))))) = Some (message result)
       \<and> command (last (command_log (db (snd (runNow st w i))))) = cmd"
proof -
  let ?full = "with_device sched device"
  have e: "executeCommand st w ?full = (None, record_run st1 w ?full result cmd)"
    using assms(3,4) by (simp add: executeCommand_returns command_data_with_device)
  have r: "runNow st w i = (Inr \<lparr>success = True, message = ''Command executed''\<rparr>,
                           record_run st1 w ?full result cmd)"
    using assms(1,2) e by (simp add: runNow_def)
  show ?thesis
    by (simp add: r record_run_log createLog_last createLog_row)
qed

text \<open>
  Claim C2 at inputs where the code departs from it. With a \<open>command_data\<close> that
  \<open>JSON.parse\<close> rejects, the SyntaxError leaves \<open>executeCommand\<close>; with the payload
  \<open>null\<close> and the command type \<open>take\<close> or \<open>route\<close>, the TypeError raised in the
  \<open>try\<close> block is raised again in the \<open>catch\<close> block. In both cases nothing is
  logged: the scheduler is unchanged.
\<close>

theorem executeCommand_throws_on_bad_payload:
  "executeCommand st w (sched\<lparr>command_data := Inl e\<rparr>) = (Some e, st)
   \<and> executeCommand st w (sched\<lparr>command_type := ''take'', command_data := Inr JNull\<rparr>)
       = (Some (TypeError ''Cannot read properties of null (reading takeId)''), st)
   \<and> executeCommand st w (sched\<lparr>command_type := ''route'', command_data := Inr JNull\<rparr>)
       = (Some (TypeError ''Cannot read properties of null (reading source)''), st)"
  by (simp add: executeCommand_def try_send_def catch_command_def)

lemma get_prop_defined: "cd \<noteq> JNull \<Longrightarrow> \<exists>v. get_prop cd key = Inr v"
  by (cases cd) simp_all

text \<open>
  The \<open>try\<close> block returns when the payload is not \<open>null\<close> and its fields print.
\<close>

lemma try_send_defined:
  assumes "cd \<noteq> JNull"
      and "\<forall>key v. get_prop cd key = Inr (Some v) \<longrightarrow> (\<exists>s. js_toString v = Inr s)"
  shows "\<exists>res cmd st1. try_send st w sched cd = Inr (res, cmd, st1)"
proof -
  obtain a b c where g: "get_prop cd ''takeId'' = Inr a" "get_prop cd ''source'' = Inr b"
      "get_prop cd ''destination'' = Inr c"
    using get_prop_defined[OF assms(1)] by metis
  have pa: "\<exists>s. js_toString v = Inr s" if "a = Some v" for v
    using assms(2) g(1) that by blast
  have pb: "\<exists>s. js_toString v = Inr s" if "b = Some v" for v
    using assms(2) g(2) that by blast
  have pc: "\<exists>s. js_toString v = Inr s" if "c = Some v" for v
    using assms(2) g(3) that by blast
  show ?thesis
  proof (cases "command_type sched = ''take''")
    case True
    show ?thesis
    proof (cases a)
      case None
      then show ?thesis by (simp add: try_send_def g True)
    next
      case (Some v)
      obtain ta where "js_toString v = Inr ta" using pa[OF Some] by blast
      then show ?thesis by (simp add: try_send_def g True Some split: prod.splits)
    qed
  next
    case False
    show ?thesis
    proof (cases "command_type sched = ''route''")
      case notroute: False
      then show ?thesis using False by (simp add: try_send_def)
    next
      case route: True
      show ?thesis
      proof (cases b)
        case None
        then show ?thesis using False by (simp add: try_send_def g route)
      next
        case sb: (Some vb)
        show ?thesis
        proof (cases c)
          case None
          then show ?thesis using False by (simp add: try_send_def g route sb)
        next
          case sc: (Some vc)
          obtain tb where tb: "js_toString vb = Inr tb" using pb[OF sb] by blast
          obtain tc where tc: "js_toString vc = Inr tc" using pc[OF sc] by blast
          show ?thesis
            using False by (simp add: try_send_def g route sb sc tb tc split: prod.splits)
        qed
      qed
    qed
  qed
qed

text \<open>A payload without the field its command type needs gives the failure result.\<close>

lemma try_send_invalid:
  assumes "cd \<noteq> JNull" "try_send st w sched cd = Inr (res, cmd, st1)"
    "command_type sched = ''take'' \<and> get_prop cd ''takeId'' = Inr None
     \<or> command_type sched = ''route'' \<and> (get_prop cd ''source'' = Inr None \<or> get_prop cd ''destination'' = Inr None)
     \<or> (command_type sched \<noteq> ''take'' \<and> command_type sched \<noteq> ''route'')"
  shows "res = invalid_command \<and> cmd = ''UNKNOWN'' \<and> st1 = st"
proof -
  obtain b c where g: "get_prop cd ''source'' = Inr b" "get_prop cd ''destination'' = Inr c"
    using get_prop_defined[OF assms(1)] by metis
  show ?thesis
    using assms(2,3) by (auto simp add: try_send_def g split: option.splits if_splits)
qed

text \<open>
  For a payload that is not \<open>null\<close> and whose fields print, the pipeline returns and
  appends one row, with status \<open>error\<close> unless the command succeeded; the table then
  keeps its last 10000 rows.
\<close>

lemma executeCommand_logs_one_row:
  assumes "command_data sched = Inr cd" "cd \<noteq> JNull"
      and "\<forall>key v. get_prop cd key = Inr (Some v) \<longrightarrow> (\<exists>s. js_toString v = Inr s)"
  shows "\<exists>res cmd st1.
           try_send st w sched cd = Inr (res, cmd, st1)
           \<and> fst (executeCommand st w sched) = None
           \<and> command_log (db (snd (executeCommand st w sched)))
               = (let rows = command_log (db st)
                             @ [\<lparr>log_id = nextId_command_log (db st), schedule_id = Some (sched_id sched),
                                 log_device_id = device_id sched, command = cmd,
                                 status = (if success res then ''success'' else ''error''),
                                 response = Some (message res), executed_at = Instant (now w)\<rparr>]
                  in drop (length rows - 10000) rows)"
proof -
  obtain res cmd st1 where t: "try_send st w sched cd = Inr (res, cmd, st1)"
    using try_send_defined[OF assms(2,3)] by blast
  have d: "db st1 = db st"
    using try_send_frame[OF t] by simp
  have e: "executeCommand st w sched = (None, record_run st1 w sched res cmd)"
    using assms(1) t by (rule executeCommand_returns)
  show ?thesis
    by (intro exI[of _ res] exI[of _ cmd] exI[of _ st1])
       (simp add: t e record_run_log createLog_rows createLog_row d)
qed

text \<open>
  A field that does not print, an object with an own property \<open>toString\<close>, makes the
  template literal of the \<open>try\<close> block throw, and the one of the \<open>catch\<close> block throw
  again: the TypeError leaves \<open>executeCommand\<close> and nothing is logged.
\<close>

lemma executeCommand_throws_on_unprintable_field:
  "executeCommand st w
     (sched\<lparr>command_type := ''take'',
            command_data := Inr (JObject [(''takeId'', JObject [(''toString'', v)])])\<rparr>)
     = (Some (TypeError ''Cannot convert object to primitive value''), st)
   \<and> executeCommand st w
     (sched\<lparr>command_type := ''route'',
            command_data := Inr (JObject [(''source'', JObject [(''toString'', v)]),
                                          (''destination'', JNum 1)])\<rparr>)
     = (Some (TypeError ''Cannot convert object to primitive value''), st)"
  by (simp add: executeCommand_def try_send_def catch_command_def js_toString_opt_def)

subsection \<open>The example store\<close>

lemmas example_defs = example_device_def example_schedule_def example_db_def example_world_def

lemma ex_sched: "getSchedule example_db 7 = Some example_schedule"
  by (simp add: getSchedule_def example_defs)

lemma ex_dev: "getDevice example_db 1 = Some example_device"
  by (simp add: getDevice_def example_defs)

lemma ex_enabled: "getEnabledSchedules example_db = [with_device example_schedule example_device]"
  by (simp add: getEnabledSchedules_def example_defs List.map_filter_def with_device_def)

lemma ex_new_job:
  "new_job example_world (with_device example_schedule example_device)
   = Some \<lparr>job_sched = with_device example_schedule example_device, job_once = True, pending = Some 5000\<rparr>"
  by (simp add: new_job_def example_defs with_device_def ScheduleRecord.defs ScheduleData.defs)

lemma ex_id: "sched_id (with_device example_schedule example_device) = 7"
  by (simp add: example_defs with_device_def ScheduleRecord.defs ScheduleData.defs)

lemma ex_load_jobs:
  "jobs (loadSchedules (new_Scheduler example_db) example_world) = [(7, 0)]"
  "job_objects (loadSchedules (new_Scheduler example_db) example_world)
   = [\<lparr>job_sched = with_device example_schedule example_device, job_once = True, pending = Some 5000\<rparr>]"
  by (simp_all add: loadSchedules_def scheduleJob_registry ex_new_job ex_id new_Scheduler_def ex_enabled cancelJob_def)

text \<open>
  The example store loaded, then its schedule scheduled again: job 0 is cancelled and
  job 1 is the only timer.
\<close>

theorem at_most_one_active_job_witness:
  "length (live_jobs (foldl scheduler_step (new_Scheduler example_db) [LoadSchedules example_world]) 7) \<le> 1
   \<and> map_of (jobs (foldl scheduler_step (new_Scheduler example_db) [LoadSchedules example_world])) 7 = Some 0
   \<and> pending (job_objects
        (scheduleJob (foldl scheduler_step (new_Scheduler example_db) [LoadSchedules example_world])
           example_world (with_device example_schedule example_device)) ! 0) = None
   \<and> live_jobs
        (scheduleJob (foldl scheduler_step (new_Scheduler example_db) [LoadSchedules example_world])
           example_world (with_device example_schedule example_device)) 7 = [1]"
proof -
  let ?st = "foldl scheduler_step (new_Scheduler example_db) [LoadSchedules example_world]"
  have st: "?st = loadSchedules (new_Scheduler example_db) example_world"
    by simp
  have reg: "map_of (jobs ?st) (sched_id (with_device example_schedule example_device)) = Some 0"
    by (simp add: ex_load_jobs ex_id)
  have len: "length (job_objects ?st) = 1"
    by (simp add: ex_load_jobs)
  note T = at_most_one_active_job[where data = example_db and ops = "[LoadSchedules example_world]"
      and i = 7 and w = example_world and sched = "with_device example_schedule example_device",
      unfolded Let_def]
  have a: "length (live_jobs ?st 7) \<le> 1"
    using T by blast
  have c: "pending (job_objects (scheduleJob ?st example_world (with_device example_schedule example_device)) ! 0) = None"
    using T reg by blast
  have d: "live_jobs (scheduleJob ?st example_world (with_device example_schedule example_device)) 7 = [1]"
    using T by (simp only: ex_new_job ex_id option.case len)
  have reg': "map_of (jobs ?st) 7 = Some 0"
    using reg by (simp only: ex_id)
  from a reg' c d show ?thesis by blast
qed

lemma ex_new_job_past:
  "schedule_type (with_device example_schedule example_device) = ''once''
   \<and> run_at (with_device example_schedule example_device) = Some (Instant 5000)
   \<and> 5000 \<le> now (example_world\<lparr>now := 9000\<rparr>)"
  by (simp add: example_defs with_device_def ScheduleRecord.defs ScheduleData.defs)

lemma ex_db: "db (new_Scheduler example_db) = example_db"
  by (simp add: new_Scheduler_def)

text \<open>
  The example schedule at time 9000, after its \<open>run_at\<close>, and at time 1000, before it.
\<close>

theorem scheduleJob_persists_next_run_witness:
  "map_of (jobs (scheduleJob (new_Scheduler example_db) (example_world\<lparr>now := 9000\<rparr>)
                  (with_device example_schedule example_device))) 7 = None
   \<and> db (scheduleJob (new_Scheduler example_db) (example_world\<lparr>now := 9000\<rparr>)
            (with_device example_schedule example_device)) = example_db
   \<and> map_of (jobs (scheduleJob (new_Scheduler example_db) example_world
                      (with_device example_schedule example_device))) 7 = Some 0
   \<and> pending (job_objects (scheduleJob (new_Scheduler example_db) example_world
                      (with_device example_schedule example_device)) ! 0) = Some 5000
   \<and> getSchedule (db (scheduleJob (new_Scheduler example_db) example_world
                      (with_device example_schedule example_device))) 7
       = Some (example_schedule\<lparr>next_run := Some (Instant 5000)\<rparr>)"
proof -
  let ?st = "new_Scheduler example_db"
  let ?sched = "with_device example_schedule example_device"
  note P = scheduleJob_persists_next_run[where st = ?st and sched = ?sched and t = 5000
      and w = "example_world\<lparr>now := 9000\<rparr>", THEN conjunct1, rule_format, OF ex_new_job_past,
      unfolded ex_id ex_db]
  have reg: "map_of (jobs (scheduleJob ?st example_world ?sched)) (sched_id ?sched) = Some 0"
    by (simp add: scheduleJob_registry ex_new_job ex_id new_Scheduler_def cancelJob_def)
  note F = scheduleJob_persists_next_run[where st = ?st and sched = ?sched and w = example_world,
      THEN conjunct2, rule_format, OF reg, unfolded ex_id ex_db ex_sched]
  have pend: "pending (job_objects (scheduleJob ?st example_world ?sched) ! 0) = Some 5000"
    by (simp add: scheduleJob_registry ex_new_job new_Scheduler_def cancelJob_def ex_id)
  have a: "map_of (jobs (scheduleJob ?st (example_world\<lparr>now := 9000\<rparr>) ?sched)) 7 = None"
    using P by blast
  have b: "db (scheduleJob ?st (example_world\<lparr>now := 9000\<rparr>) ?sched) = example_db"
    using P by blast
  have c: "map_of (jobs (scheduleJob ?st example_world ?sched)) 7 = Some 0"
    using reg by (simp only: ex_id)
  have d: "getSchedule (db (scheduleJob ?st example_world ?sched)) 7
           = Some (example_schedule\<lparr>next_run := Some (Instant 5000)\<rparr>)"
    using F pend by auto
  from a b c pend d show ?thesis by blast
qed

lemma ex_loaded_sched:
  "getSchedule (db (loadSchedules (new_Scheduler example_db) example_world)) 7
   = Some (example_schedule\<lparr>next_run := Some (Instant 5000)\<rparr>)"
  by (simp add: loadSchedules_def ex_enabled new_Scheduler_def scheduleJob_db ex_new_job ex_id
        getSchedule_updateSchedule apply_next_run ex_sched)

text \<open>
  The timer of the example schedule fires.
\<close>

theorem one_time_timer_disables_schedule_witness:
  "map_option enabled
     (getSchedule (db (fire (loadSchedules (new_Scheduler example_db) example_world)
                         (example_world\<lparr>now := 5000\<rparr>) 0)) 7) = Some False
   \<and> job_once (job_objects (loadSchedules (new_Scheduler example_db) example_world) ! 0)
   \<and> pending (job_objects (loadSchedules (new_Scheduler example_db) example_world) ! 0) = Some 5000"
proof -
  let ?st = "loadSchedules (new_Scheduler example_db) example_world"
  have h1: "0 < length (job_objects ?st)"
    by (simp add: ex_load_jobs)
  have h2: "pending (job_objects ?st ! 0) = Some 5000"
    by (simp add: ex_load_jobs)
  have h3: "job_once (job_objects ?st ! 0)"
    by (simp add: ex_load_jobs)
  have i: "sched_id (job_sched (job_objects ?st ! 0)) = 7"
    by (simp add: ex_load_jobs ex_id)
  note T = one_time_timer_disables_schedule[OF h1 h2 h3, where w = "example_world\<lparr>now := 5000\<rparr>",
      THEN conjunct1, unfolded i ex_loaded_sched]
  have "map_option enabled (getSchedule (db (fire ?st (example_world\<lparr>now := 5000\<rparr>) 0)) 7) = Some False"
    using T by simp
  with h2 h3 show ?thesis by blast
qed

lemma ex_try_send:
  "try_send (new_Scheduler example_db) example_world (with_device example_schedule example_device)
     (JObject [(''takeId'', JNum 7)])
   = Inr (\<lparr>success = False, message = ''connect ECONNREFUSED''\<rparr>, ''TAKE 7'',
          (new_Scheduler example_db)
            \<lparr>rossTalkPool := \<lparr>clients = [(1, 0)],
                               objects = [(new_RossTalkClient ''10.0.0.5'' 7788)
                                            \<lparr>rt_uncaught := [Error ''connect ECONNREFUSED'']\<rparr>]\<rparr>\<rparr>)"
  by (simp add: try_send_def example_defs with_device_def ScheduleRecord.defs ScheduleData.defs
        RossTalkPool_sendTake_def RossTalkPool_getClient_def pool_getClient_def pool_call_def
        new_Scheduler_def empty_pool_def rosstalk_sendTake_def rosstalk_sendCommand_def
        rosstalk_connect_def rosstalk_cleanup_def Let_def new_RossTalkClient_def
        int_to_string_def nat_to_string.simps)

lemma ex_log: "command_log example_db = []"
  by (simp add: example_defs)

lemma ex_device_id: "device_id example_schedule = 1"
  by (simp add: example_defs)

lemma ex_command_data: "command_data example_schedule = Inr (JObject [(''takeId'', JNum 7)])"
  by (simp add: example_defs)

text \<open>
  \<open>runNow\<close> on the example schedule while the device refuses the connection.
\<close>

theorem runNow_reports_execution_not_outcome_witness:
  "fst (runNow (new_Scheduler example_db) example_world 7)
     = Inr \<lparr>success = True, message = ''Command executed''\<rparr>
   \<and> status (last (command_log (db (snd (runNow (new_Scheduler example_db) example_world 7)))))
       = ''error''
   \<and> response (last (command_log (db (snd (runNow (new_Scheduler example_db) example_world 7)))))
       = Some ''connect ECONNREFUSED''"
proof -
  have s: "getSchedule (db (new_Scheduler example_db)) 7 = Some example_schedule"
    by (simp add: ex_db ex_sched)
  have d: "getDevice (db (new_Scheduler example_db)) (device_id example_schedule) = Some example_device"
    by (simp add: ex_db ex_dev ex_device_id)
  note T = runNow_reports_execution_not_outcome[OF s d ex_command_data ex_try_send]
  then show ?thesis by simp
qed

text \<open>
  Claim C1 as stated fails: the command fails with a connection error, the log row
  says \<open>error\<close>, and \<open>runNow\<close> returns success.
\<close>

theorem runNow_result_counterexample:
  "fst (runNow (new_Scheduler example_db) example_world 7)
     = Inr \<lparr>success = True, message = ''Command executed''\<rparr>
   \<and> map status (command_log (db (snd (runNow (new_Scheduler example_db) example_world 7))))
       = [''error'']
   \<and> map response (command_log (db (snd (runNow (new_Scheduler example_db) example_world 7))))
       = [Some ''connect ECONNREFUSED'']"
proof -
  have e: "executeCommand (new_Scheduler example_db) example_world
             (with_device example_schedule example_device)
           = (None, record_run ((new_Scheduler example_db)
                \<lparr>rossTalkPool := \<lparr>clients = [(1, 0)],
                                   objects = [(new_RossTalkClient ''10.0.0.5'' 7788)
                                     \<lparr>rt_uncaught := [Error ''connect ECONNREFUSED'']\<rparr>]\<rparr>\<rparr>)
                example_world (with_device example_schedule example_device)
                \<lparr>success = False, message = ''connect ECONNREFUSED''\<rparr> ''TAKE 7'')"
    by (rule executeCommand_returns[OF _ ex_try_send])
       (simp add: command_data_with_device ex_command_data)
  have r: "runNow (new_Scheduler example_db) example_world 7
           = (Inr \<lparr>success = True, message = ''Command executed''\<rparr>,
              record_run ((new_Scheduler example_db)
                \<lparr>rossTalkPool := \<lparr>clients = [(1, 0)],
                                   objects = [(new_RossTalkClient ''10.0.0.5'' 7788)
                                     \<lparr>rt_uncaught := [Error ''connect ECONNREFUSED'']\<rparr>]\<rparr>\<rparr>)
                example_world (with_device example_schedule example_device)
                \<lparr>success = False, message = ''connect ECONNREFUSED''\<rparr> ''TAKE 7'')"
    by (simp add: runNow_def ex_db ex_sched ex_dev e ex_device_id)
  show ?thesis
    by (simp add: r record_run_log createLog_rows createLog_row ex_db ex_log)
qed

text \<open>
  Claim C7 as stated fails for \<open>runNow\<close>: the one-time example schedule is executed
  (the row \<open>TAKE 7\<close> is logged) and is still enabled.
\<close>

theorem runNow_keeps_enabled_counterexample:
  "schedule_type example_schedule = ''once''
   \<and> map_option enabled (getSchedule example_db 7) = Some True
   \<and> fst (runNow (new_Scheduler example_db) example_world 7)
       = Inr \<lparr>success = True, message = ''Command executed''\<rparr>
   \<and> map command (command_log (db (snd (runNow (new_Scheduler example_db) example_world 7))))
       = [''TAKE 7'']
   \<and> map_option enabled
        (getSchedule (db (snd (runNow (new_Scheduler example_db) example_world 7))) 7) = Some True"
proof -
  have e: "executeCommand (new_Scheduler example_db) example_world
             (with_device example_schedule example_device)
           = (None, record_run ((new_Scheduler example_db)
                \<lparr>rossTalkPool := \<lparr>clients = [(1, 0)],
                                   objects = [(new_RossTalkClient ''10.0.0.5'' 7788)
                                     \<lparr>rt_uncaught := [Error ''connect ECONNREFUSED'']\<rparr>]\<rparr>\<rparr>)
                example_world (with_device example_schedule example_device)
                \<lparr>success = False, message = ''connect ECONNREFUSED''\<rparr> ''TAKE 7'')"
    by (rule executeCommand_returns[OF _ ex_try_send])
       (simp add: command_data_with_device ex_command_data)
  have r: "runNow (new_Scheduler example_db) example_world 7
           = (Inr \<lparr>success = True, message = ''Command executed''\<rparr>,
              record_run ((new_Scheduler example_db)
                \<lparr>rossTalkPool := \<lparr>clients = [(1, 0)],
                                   objects = [(new_RossTalkClient ''10.0.0.5'' 7788)
                                     \<lparr>rt_uncaught := [Error ''connect ECONNREFUSED'']\<rparr>]\<rparr>\<rparr>)
                example_world (with_device example_schedule example_device)
                \<lparr>success = False, message = ''connect ECONNREFUSED''\<rparr> ''TAKE 7'')"
    by (simp add: runNow_def ex_db ex_sched ex_dev e ex_device_id)
  have en: "map_option enabled
        (getSchedule (db (snd (runNow (new_Scheduler example_db) example_world 7))) 7) = Some True"
    by (simp add: runNow_enabled ex_db ex_sched example_schedule_def)
  have lg: "map command (command_log (db (snd (runNow (new_Scheduler example_db) example_world 7))))
       = [''TAKE 7'']"
    by (simp add: r record_run_log createLog_rows createLog_row ex_db ex_log)
  show ?thesis
    using en lg by (simp add: r ex_sched) (simp add: example_schedule_def)
qed

end
